theory Spec2Isabelle
  imports
    Complex_Main
    "HOL-Library.Char_ord"
    "HOL-Library.List_Lexorder"
    "HOL-Library.Product_Lexorder"
begin

section \<open>Folder tree generator: a shallow embedding of \<open>Folder_Tree_Claude_shorter.py\<close>\<close>

text \<open>
  The theory embeds the class \<open>FolderTreeGenerator\<close>: \<open>format_size\<close>,
  \<open>should_include_file\<close>, \<open>get_file_icon\<close>, \<open>is_key_directory\<close>, \<open>get_file_size\<close>,
  \<open>generate_tree\<close> and \<open>_build_tree\<close>. The three savers and \<open>main\<close> only reformat the
  finished line list and are not embedded.

  Conventions.
  \<^item> A Python \<open>str\<close> is a \<open>string\<close> holding its UTF-8 bytes, so the box-drawing glyphs and
    the emoji fall-backs are written as byte lists. Byte-wise comparison of UTF-8 agrees with
    Python's comparison by code point, and substring and prefix tests agree as well.
    \<open>str.lower\<close> is embedded for ASCII letters only.
  \<^item> The file system is a finite snapshot: a tree of entries, read where the source calls
    \<open>iterdir\<close>, \<open>is_dir\<close>, \<open>is_file\<close>, \<open>stat\<close>.
  \<^item> The attributes of \<open>self\<close> are split in two records: the ones assigned in
    \<open>__init__\<close> only (\<open>generator\<close>) and the ones \<open>generate_tree\<close> resets and
    \<open>_build_tree\<close> mutates (\<open>tree_output\<close>); functions that mutate take and return the latter.
\<close>

subsection \<open>Python primitives used by the source\<close>

definition startswith :: "string \<Rightarrow> string \<Rightarrow> bool" where
  "startswith s p = (take (length p) s = p)"

text \<open>\<open>pattern in s\<close> on strings: \<open>pattern\<close> occurs as a contiguous substring of \<open>s\<close>.\<close>

fun str_contains :: "string \<Rightarrow> string \<Rightarrow> bool" where
  "str_contains pattern [] = (pattern = [])"
| "str_contains pattern (c # s) = (startswith (c # s) pattern \<or> str_contains pattern s)"

text \<open>
  \<open>str.lower\<close> on the ASCII letters. Python also folds cased letters outside ASCII, which
  are left as they are here: for a name with such a letter the sort key, the extension
  compared with the categories and the icon table, and the test for a key directory can
  differ from the program's.
\<close>

definition lower_char :: "char \<Rightarrow> char" where
  "lower_char c =
     (case map_of (zip ''ABCDEFGHIJKLMNOPQRSTUVWXYZ'' ''abcdefghijklmnopqrstuvwxyz'') c of
        None \<Rightarrow> c
      | Some l \<Rightarrow> l)"

definition lower :: "string \<Rightarrow> string" where
  "lower s = map lower_char s"

text \<open>\<open>s.rfind(c)\<close>: the index of the last occurrence, \<open>None\<close> for Python's \<open>-1\<close>.\<close>

fun rfind :: "string \<Rightarrow> char \<Rightarrow> nat option" where
  "rfind [] c = None"
| "rfind (x # xs) c =
     (case rfind xs c of
        Some i \<Rightarrow> Some (Suc i)
      | None \<Rightarrow> if x = c then Some 0 else None)"

text \<open>
  \<open>PurePath.suffix\<close> of pathlib (Python 3.7 to 3.13), applied to the final path component:
  \<open>i = name.rfind('.')\<close>; the suffix is \<open>name[i:]\<close> when \<open>0 < i < len(name) - 1\<close>, else empty.
\<close>

definition suffix :: "string \<Rightarrow> string" where
  "suffix nm =
     (case rfind nm CHR ''.'' of
        None \<Rightarrow> []
      | Some i \<Rightarrow> if 0 < i \<and> i + 1 < length nm then drop i nm else [])"

text \<open>\<open>d.get(k, default)\<close> on a dictionary written as an association list.\<close>

definition dict_get :: "('k \<times> 'v) list \<Rightarrow> 'k \<Rightarrow> 'v \<Rightarrow> 'v" where
  "dict_get d k dflt = (case map_of d k of None \<Rightarrow> dflt | Some v \<Rightarrow> v)"

text \<open>Truthiness of an \<open>Optional[Set[str]]\<close>: \<open>None\<close> and the empty set are false.\<close>

fun truthy_set :: "string list option \<Rightarrow> bool" where
  "truthy_set None = False"
| "truthy_set (Some xs) = (xs \<noteq> [])"

fun set_items :: "string list option \<Rightarrow> string list" where
  "set_items None = []"
| "set_items (Some xs) = xs"

text \<open>\<open>xs[:n]\<close> for an integer \<open>n\<close>; a negative \<open>n\<close> counts from the end.\<close>

definition slice_to :: "'a list \<Rightarrow> int \<Rightarrow> 'a list" where
  "slice_to xs n = (if 0 \<le> n then take (nat n) xs else take (nat (int (length xs) + n)) xs)"

definition digit_char :: "nat \<Rightarrow> char" where
  "digit_char d = ''0123456789'' ! d"

function str_nat :: "nat \<Rightarrow> string" where
  "str_nat n = (if n < 10 then [digit_char n] else str_nat (n div 10) @ [digit_char (n mod 10)])"
  by pat_completeness auto
termination
  by (relation "measure id") auto

declare str_nat.simps [simp del]

definition str_int :: "int \<Rightarrow> string" where
  "str_int k = (if k < 0 then CHR ''-'' # str_nat (nat (- k)) else str_nat (nat k))"

subsection \<open>Floating point as it occurs in \<open>format_size\<close>\<close>

text \<open>
  The only floats of the program arise in \<open>format_size\<close>: an \<open>int\<close> converted to binary64
  and divided by \<open>1024.0\<close>, at most four times. They are non-negative dyadic rationals, written
  here as \<open>rat\<close>. Conversion of an \<open>int\<close> rounds to 53 significant bits, ties to even;
  division by a power of two is exact. The \<open>OverflowError\<close> of the conversion for integers
  of \<open>2 ^ 1024\<close> and more is outside the model (a \<open>st_size\<close> is a 64-bit field).
\<close>

function bit_length :: "nat \<Rightarrow> nat" where
  "bit_length n = (if n = 0 then 0 else Suc (bit_length (n div 2)))"
  by pat_completeness auto
termination
  by (relation "measure id") auto

declare bit_length.simps [simp del]

definition float_of_nat :: "nat \<Rightarrow> rat" where
  "float_of_nat n =
     (if bit_length n \<le> 53 then of_nat n
      else
        let e = bit_length n - 53;
            q = n div 2 ^ e;
            r = n mod 2 ^ e;
            h = 2 ^ (e - 1)
        in of_nat ((if r < h \<or> (r = h \<and> even q) then q else q + 1) * 2 ^ e))"

text \<open>The value of the variable \<open>size_bytes\<close>: an \<open>int\<close> until the first division.\<close>

datatype number = PyInt nat | PyFloat rat

fun as_float :: "number \<Rightarrow> rat" where
  "as_float (PyInt n) = float_of_nat n"
| "as_float (PyFloat x) = x"

fun ge_1024 :: "number \<Rightarrow> bool" where
  "ge_1024 (PyInt n) = (n \<ge> 1024)"
| "ge_1024 (PyFloat x) = (x \<ge> 1024)"

definition div_1024 :: "number \<Rightarrow> number" where
  "div_1024 v = PyFloat (as_float v / 1024)"

text \<open>Rounding a non-negative rational to the nearest integer, ties to even.\<close>

definition round_half_even :: "rat \<Rightarrow> nat" where
  "round_half_even x =
     (let f = nat \<lfloor>x\<rfloor>; d = x - of_nat f
      in if d < 1 / 2 then f else if d > 1 / 2 then f + 1 else if even f then f else f + 1)"

text \<open>The format \<open>.1f\<close>: the correctly rounded decimal with one digit after the point.\<close>

definition format_1f :: "number \<Rightarrow> string" where
  "format_1f v =
     (let t = round_half_even (10 * as_float v)
      in str_nat (t div 10) @ ''.'' @ str_nat (t mod 10))"

subsection \<open>\<open>format_size\<close>\<close>

definition size_names :: "string list" where
  "size_names = [''B'', ''KB'', ''MB'', ''GB'', ''TB'']"

function format_size_loop :: "number \<Rightarrow> nat \<Rightarrow> number \<times> nat" where
  "format_size_loop size_bytes i =
     (if ge_1024 size_bytes \<and> i < length size_names - 1
      then format_size_loop (div_1024 size_bytes) (i + 1)
      else (size_bytes, i))"
  by pat_completeness auto
termination
  by (relation "measure (\<lambda>(size_bytes, i). length size_names - 1 - i)") auto

declare format_size_loop.simps [simp del]

definition format_size :: "nat \<Rightarrow> string" where
  "format_size size_bytes =
     (if size_bytes = 0 then ''0 B''
      else
        let (v, i) = format_size_loop (PyInt size_bytes) 0
        in format_1f v @ '' '' @ size_names ! i)"

subsection \<open>The file system\<close>

text \<open>
  What a \<open>Path\<close> object stands for when the source queries it. A \<open>File\<close> answers
  \<open>is_file()\<close>, a \<open>Dir\<close> answers \<open>is_dir()\<close>, an \<open>Other\<close> (socket, device, dangling
  link) answers neither. The listing of a directory is \<open>None\<close> where \<open>iterdir()\<close> raises
  \<open>OSError\<close> or \<open>PermissionError\<close>, else the children in the order \<open>iterdir()\<close> yields
  them.
\<close>

datatype entry =
    File string nat
  | Dir string "entry list option"
  | Other string

fun name :: "entry \<Rightarrow> string" where
  "name (File nm sz) = nm"
| "name (Dir nm listing) = nm"
| "name (Other nm) = nm"

fun is_dir :: "entry \<Rightarrow> bool" where
  "is_dir (Dir nm listing) = True"
| "is_dir e = False"

fun is_file :: "entry \<Rightarrow> bool" where
  "is_file (File nm sz) = True"
| "is_file e = False"

text \<open>\<open>list(directory.iterdir())\<close>; on a non-directory it raises \<open>NotADirectoryError\<close>.\<close>

fun iterdir :: "entry \<Rightarrow> entry list option" where
  "iterdir (Dir nm listing) = listing"
| "iterdir e = None"

fun get_file_size :: "entry \<Rightarrow> nat" where
  "get_file_size (File nm sz) = sz"
| "get_file_size e = 0"

subsection \<open>Icon sets and tree styles\<close>

text \<open>
  An icon set is a dictionary from an extension or a kind to an icon. \<open>SIMPLE\<close> and
  \<open>PROFESSIONAL\<close> are written out; the emoji table \<open>ARTISANAL\<close> is not, and a generator
  takes its icon set as a value.
\<close>

type_synonym icon_set = "(string \<times> string) list"

definition SIMPLE :: icon_set where
  "SIMPLE =
     [(''.txt'', ''T''), (''.md'', ''M''), (''.pdf'', ''P''), (''.doc'', ''D''), (''.docx'', ''D''),
      (''.jpg'', ''I''), (''.jpeg'', ''I''), (''.png'', ''I''), (''.gif'', ''G''), (''.svg'', ''S''),
      (''.mp3'', ''A''), (''.wav'', ''A''), (''.mp4'', ''V''), (''.avi'', ''V''),
      (''.py'', ''P''), (''.js'', ''J''), (''.html'', ''H''), (''.css'', ''C''),
      (''.zip'', ''Z''), (''.rar'', ''R''),
      (''folder'', ''+''), (''file'', ''-''), (''unknown'', ''?'')]"

definition PROFESSIONAL :: icon_set where
  "PROFESSIONAL =
     [(''.txt'', ''[TXT]''), (''.md'', ''[MD]''), (''.pdf'', ''[PDF]''), (''.doc'', ''[DOC]''),
      (''.docx'', ''[DOC]''),
      (''.xls'', ''[XLS]''), (''.xlsx'', ''[XLS]''), (''.csv'', ''[CSV]''),
      (''.jpg'', ''[IMG]''), (''.jpeg'', ''[IMG]''), (''.png'', ''[IMG]''), (''.gif'', ''[GIF]''),
      (''.mp3'', ''[MP3]''), (''.wav'', ''[WAV]''), (''.mp4'', ''[MP4]''), (''.avi'', ''[AVI]''),
      (''.py'', ''[PY]''), (''.js'', ''[JS]''), (''.html'', ''[HTM]''), (''.css'', ''[CSS]''),
      (''.zip'', ''[ZIP]''), (''.rar'', ''[RAR]''),
      (''folder'', ''[DIR]''), (''file'', ''[   ]''), (''unknown'', ''[?]'')]"

text \<open>The emoji defaults of \<open>get_file_icon\<close>, in UTF-8: U+1F4C2, U+1F4C1, U+1F4C4.\<close>

definition emoji_open_folder :: string where
  "emoji_open_folder = [CHR 0xF0, CHR 0x9F, CHR 0x93, CHR 0x82]"

definition emoji_folder :: string where
  "emoji_folder = [CHR 0xF0, CHR 0x9F, CHR 0x93, CHR 0x81]"

definition emoji_page :: string where
  "emoji_page = [CHR 0xF0, CHR 0x9F, CHR 0x93, CHR 0x84]"

record tree_style =
  vertical :: string
  horizontal :: string
  junction :: string
  corner :: string
  space :: string

text \<open>The box-drawing glyphs in UTF-8: U+2502, U+2500, U+251C, U+2514.\<close>

definition box_vertical :: string where
  "box_vertical = [CHR 0xE2, CHR 0x94, CHR 0x82]"

definition box_horizontal :: string where
  "box_horizontal = [CHR 0xE2, CHR 0x94, CHR 0x80]"

definition box_junction :: string where
  "box_junction = [CHR 0xE2, CHR 0x94, CHR 0x9C]"

definition box_corner :: string where
  "box_corner = [CHR 0xE2, CHR 0x94, CHR 0x94]"

text \<open>The entries \<open>'simple'\<close>, \<open>'professional'\<close> and \<open>'artisanal'\<close> of \<open>STYLES\<close> are equal.\<close>

definition simple_style :: tree_style where
  "simple_style =
     \<lparr>vertical = box_vertical @ '' '',
      horizontal = box_horizontal @ '' '',
      junction = box_junction @ box_horizontal @ '' '',
      corner = box_corner @ box_horizontal @ '' '',
      space = ''  ''\<rparr>"

definition ascii_style :: tree_style where
  "ascii_style =
     \<lparr>vertical = ''| '', horizontal = ''- '', junction = ''+- '', corner = ''+- '',
      space = ''  ''\<rparr>"

subsection \<open>The generator object\<close>

record stats =
  folders :: nat
  files :: nat
  total_size :: nat
  truncated_folders :: nat

text \<open>
  The attributes that \<open>__init__\<close> assigns and nothing changes afterwards. The style and the
  icon set are the resolved tables; the look-up of their names in \<open>__init__\<close> is not embedded.
\<close>

record generator =
  style :: tree_style
  icon_set :: icon_set
  max_depth :: int
  max_files_per_folder :: "int option"

text \<open>The attributes that a run writes.\<close>

record tree_output =
  tree_lines :: "string list"
  stats :: stats

definition reset_stats :: stats where
  "reset_stats = \<lparr>folders = 0, files = 0, total_size = 0, truncated_folders = 0\<rparr>"

definition file_categories :: "(string \<times> string list) list" where
  "file_categories =
     [(''documents'', [''.txt'', ''.md'', ''.pdf'', ''.doc'', ''.docx'', ''.rtf'', ''.odt'']),
      (''images'', [''.jpg'', ''.jpeg'', ''.png'', ''.gif'', ''.bmp'', ''.svg'', ''.ico'', ''.tiff'',
                    ''.webp'']),
      (''audio'', [''.mp3'', ''.wav'', ''.flac'', ''.aac'', ''.ogg'', ''.m4a'', ''.wma'']),
      (''video'', [''.mp4'', ''.avi'', ''.mkv'', ''.mov'', ''.wmv'', ''.flv'', ''.webm'', ''.m4v'']),
      (''code'', [''.py'', ''.js'', ''.html'', ''.css'', ''.php'', ''.java'', ''.cpp'', ''.c'', ''.cs'',
                  ''.rb'']),
      (''archives'', [''.zip'', ''.rar'', ''.7z'', ''.tar'', ''.gz'', ''.bz2'', ''.xz''])]"

definition get_file_icon :: "generator \<Rightarrow> entry \<Rightarrow> bool \<Rightarrow> string" where
  "get_file_icon self file_path is_key_folder =
     (if is_dir file_path then
        (if is_key_folder then dict_get (icon_set self) ''key_folder'' emoji_open_folder
         else dict_get (icon_set self) ''folder'' emoji_folder)
      else
        let ext = lower (suffix (name file_path))
        in dict_get (icon_set self) ext (dict_get (icon_set self) ''file'' emoji_page))"

definition key_dirs :: "string list" where
  "key_dirs =
     [''src'', ''source'', ''lib'', ''libs'', ''app'', ''apps'', ''components'',
      ''pages'', ''views'', ''models'', ''controllers'', ''services'', ''utils'',
      ''helpers'', ''config'', ''configs'', ''settings'', ''static'', ''assets'',
      ''resources'', ''public'', ''private'', ''data'', ''database'', ''db'',
      ''migrations'', ''schemas'', ''api'', ''apis'', ''routes'', ''middleware'',
      ''templates'', ''views'', ''layouts'', ''partials'', ''includes'',
      ''tests'', ''test'', ''spec'', ''specs'', ''docs'', ''documentation'',
      ''examples'', ''samples'', ''demos'', ''tutorials'', ''guides'',
      ''scripts'', ''tools'', ''bin'', ''build'', ''dist'', ''output'',
      ''notebooks'', ''helpfiles'']"

definition is_key_directory :: "string \<Rightarrow> bool" where
  "is_key_directory dir_name = (lower dir_name \<in> set key_dirs)"

subsection \<open>\<open>should_include_file\<close>\<close>

text \<open>
  The two optional sets are lists; the result does not depend on the order in which a set
  is iterated, since each loop only looks for one member that matches.
\<close>

definition should_include_file ::
  "entry \<Rightarrow> string list option \<Rightarrow> string list option \<Rightarrow> bool" where
  "should_include_file file_path include_categories exclude_patterns =
     (if truthy_set exclude_patterns \<and>
         list_ex (\<lambda>pattern. str_contains pattern (name file_path)) (set_items exclude_patterns)
      then False
      else if truthy_set include_categories \<and> \<not> is_dir file_path then
        let ext = lower (suffix (name file_path))
        in list_ex (\<lambda>category. ext \<in> set (dict_get file_categories category []))
             (set_items include_categories)
      else True)"

subsection \<open>\<open>_build_tree\<close>\<close>

text \<open>Lines 265 to 269: the hidden-file filter, then \<open>should_include_file\<close>.\<close>

definition filter_entries ::
  "bool \<Rightarrow> string list option \<Rightarrow> string list option \<Rightarrow> entry list \<Rightarrow> entry list" where
  "filter_entries show_hidden include_categories exclude_patterns entries =
     (let entries =
            (if \<not> show_hidden then filter (\<lambda>e. \<not> startswith (name e) ''.'') entries
             else entries)
      in filter (\<lambda>e. should_include_file e include_categories exclude_patterns) entries)"

text \<open>
  Lines 271 to 275. \<open>list.sort\<close> is stable, as \<open>sort_key\<close> is; a key is a pair compared
  lexicographically, \<open>False\<close> before \<open>True\<close>, or a string.
\<close>

definition sort_entries :: "bool \<Rightarrow> entry list \<Rightarrow> entry list" where
  "sort_entries sort_dirs_first entries =
     (if sort_dirs_first then sort_key (\<lambda>x. (is_file x, lower (name x))) entries
      else sort_key (\<lambda>x. lower (name x)) entries)"

text \<open>
  Lines 281 to 290, without the counter: the files displayed, \<open>hidden_count\<close> and
  \<open>files_truncated\<close>. The guard tests \<open>self.max_files_per_folder\<close> for truthiness:
  \<open>None\<close> and \<open>0\<close> are false. The local variable \<open>files\<close> of the source is
  \<open>file_list\<close> here, since \<open>files\<close> names the counter.
\<close>

fun limit_files :: "int option \<Rightarrow> entry list \<Rightarrow> entry list \<times> int \<times> bool" where
  "limit_files None file_list = (file_list, 0, False)"
| "limit_files (Some n) file_list =
     (if n \<noteq> 0 \<and> int (length file_list) > n
      then (slice_to file_list n, int (length file_list) - n, True)
      else (file_list, 0, False))"

text \<open>Lines 306 to 320: the text of the line of one entry.\<close>

definition entry_line :: "generator \<Rightarrow> entry \<Rightarrow> string \<Rightarrow> bool \<Rightarrow> string" where
  "entry_line self entry current_prefix show_size =
     (let is_key = (if is_dir entry then is_key_directory (name entry) else False);
          icon = get_file_icon self entry is_key;
          line = current_prefix @ icon @ '' '' @ name entry
      in if is_dir entry then line @ ''/''
         else if show_size then line @ '' ('' @ format_size (get_file_size entry) @ '')''
         else line)"

text \<open>Lines 311 to 317: the counters of one entry.\<close>

definition count_entry :: "entry \<Rightarrow> stats \<Rightarrow> stats" where
  "count_entry entry st =
     (if is_dir entry then st\<lparr>folders := folders st + 1\<rparr>
      else st\<lparr>files := files st + 1, total_size := total_size st + get_file_size entry\<rparr>)"

text \<open>Lines 329 to 333: the text of the truncation line.\<close>

definition truncation_line :: "generator \<Rightarrow> string \<Rightarrow> nat \<Rightarrow> int \<Rightarrow> string" where
  "truncation_line self prefix shown hidden_count =
     (if shown > 0 then prefix @ corner (style self) else prefix @ junction (style self))
     @ ''... ('' @ str_int hidden_count @ '' more files)''"

function build_tree ::
  "generator \<Rightarrow> tree_output \<Rightarrow> entry \<Rightarrow> string \<Rightarrow> int \<Rightarrow> bool \<Rightarrow> bool \<Rightarrow> bool \<Rightarrow>
   string list option \<Rightarrow> string list option \<Rightarrow> tree_output" where
  "build_tree self out directory prefix depth show_size show_hidden sort_dirs_first
     include_categories exclude_patterns =
     (if depth \<ge> max_depth self then out
      else
        case iterdir directory of
          None \<Rightarrow> out
        | Some entries \<Rightarrow>
            let entries = filter_entries show_hidden include_categories exclude_patterns entries;
                entries = sort_entries sort_dirs_first entries;
                directories = filter is_dir entries;
                file_list = filter is_file entries;
                (displayed_files, hidden_count, files_truncated) =
                   limit_files (max_files_per_folder self) file_list;
                out = (if files_truncated
                       then out\<lparr>stats := (stats out)\<lparr>truncated_folders :=
                              truncated_folders (stats out) + 1\<rparr>\<rparr>
                       else out);
                entries_to_show = directories @ displayed_files;
                out = fold (\<lambda>(i, entry) out.
                        let is_last_entry =
                              (i + 1 = length entries_to_show \<and> \<not> files_truncated);
                            current_prefix =
                              prefix @ (if is_last_entry then corner (style self)
                                        else junction (style self));
                            next_prefix =
                              prefix @ (if is_last_entry then space (style self)
                                        else vertical (style self));
                            out = out\<lparr>stats := count_entry entry (stats out)\<rparr>;
                            out = out\<lparr>tree_lines := tree_lines out @
                                    [entry_line self entry current_prefix show_size]\<rparr>
                        in if is_dir entry
                           then build_tree self out entry next_prefix (depth + 1) show_size
                                  show_hidden sort_dirs_first include_categories exclude_patterns
                           else out)
                      (enumerate 0 entries_to_show) out
            in if files_truncated
               then out\<lparr>tree_lines := tree_lines out @
                      [truncation_line self prefix (length entries_to_show) hidden_count]\<rparr>
               else out)"
  by pat_completeness auto
termination
  by (relation "measure (\<lambda>(self, out, directory, prefix, depth, rest). nat (max_depth self - depth))")
     auto

declare build_tree.simps [simp del]

subsection \<open>\<open>generate_tree\<close>\<close>

datatype error = FileNotFoundError

text \<open>
  The argument \<open>root_path\<close> is what the file system holds at the resolved path,
  \<open>None\<close> when \<open>root.exists()\<close> is false; the local variable \<open>root\<close> of the source is
  \<open>root_entry\<close> here. \<open>rglob_total\<close> is the value of the sum over
  \<open>root.rglob('*')\<close> of line 239, \<open>None\<close> when that walk raises \<open>OSError\<close>; it is read
  only under \<open>show_size\<close>. The first argument pair is \<open>self\<close> before the call; the result
  is the value returned, or the exception raised, and the attributes after the call.
\<close>

text \<open>Lines 235 to 242: the text of the root line.\<close>

definition root_line :: "generator \<Rightarrow> entry \<Rightarrow> nat option \<Rightarrow> bool \<Rightarrow> string" where
  "root_line self root_entry rglob_total show_size =
     (let root_icon = get_file_icon self root_entry True;
          line = root_icon @ '' '' @ name root_entry @ ''/''
      in if show_size \<and> is_dir root_entry then
           (case rglob_total of
              Some sz \<Rightarrow> line @ '' ('' @ format_size sz @ '')''
            | None \<Rightarrow> line)
         else line)"

definition generate_tree ::
  "generator \<Rightarrow> tree_output \<Rightarrow> entry option \<Rightarrow> nat option \<Rightarrow> bool \<Rightarrow> bool \<Rightarrow> bool \<Rightarrow>
   string list option \<Rightarrow> string list option \<Rightarrow> (error + string list) \<times> tree_output" where
  "generate_tree self out0 root_path rglob_total show_size show_hidden sort_dirs_first
     include_categories exclude_patterns =
     (let out = out0\<lparr>tree_lines := [], stats := reset_stats\<rparr>
      in case root_path of
           None \<Rightarrow> (Inl FileNotFoundError, out)
         | Some root_entry \<Rightarrow>
             let out = out\<lparr>tree_lines := tree_lines out @
                         [root_line self root_entry rglob_total show_size]\<rparr>;
                 out = out\<lparr>stats := (stats out)\<lparr>folders := folders (stats out) + 1\<rparr>\<rparr>;
                 out = build_tree self out root_entry [] 0 show_size show_hidden sort_dirs_first
                         include_categories exclude_patterns
             in (Inr (tree_lines out), out))"

subsection \<open>Notions derived from the embedding, used to state its properties\<close>

text \<open>
  The body of the \<open>for\<close> loop of \<open>_build_tree\<close> (lines 295 to 327), named: \<open>n\<close> is
  \<open>len(entries_to_show)\<close>. It is the function folded in \<open>build_tree\<close>.
\<close>

definition visit ::
  "generator \<Rightarrow> string \<Rightarrow> int \<Rightarrow> bool \<Rightarrow> bool \<Rightarrow> bool \<Rightarrow> string list option \<Rightarrow>
   string list option \<Rightarrow> nat \<Rightarrow> bool \<Rightarrow> nat \<times> entry \<Rightarrow> tree_output \<Rightarrow> tree_output" where
  "visit self prefix depth show_size show_hidden sort_dirs_first include_categories
     exclude_patterns n files_truncated =
     (\<lambda>(i, entry) out.
        let is_last_entry = (i + 1 = n \<and> \<not> files_truncated);
            current_prefix =
              prefix @ (if is_last_entry then corner (style self) else junction (style self));
            next_prefix =
              prefix @ (if is_last_entry then space (style self) else vertical (style self));
            out = out\<lparr>stats := count_entry entry (stats out)\<rparr>;
            out = out\<lparr>tree_lines := tree_lines out @
                    [entry_line self entry current_prefix show_size]\<rparr>
        in if is_dir entry
           then build_tree self out entry next_prefix (depth + 1) show_size
                  show_hidden sort_dirs_first include_categories exclude_patterns
           else out)"

text \<open>The two prefixes the loop computes for the entry at index \<open>i\<close> of \<open>n\<close>.\<close>

definition current_prefix :: "generator \<Rightarrow> string \<Rightarrow> nat \<Rightarrow> bool \<Rightarrow> nat \<Rightarrow> string" where
  "current_prefix self prefix n files_truncated i =
     prefix @ (if i + 1 = n \<and> \<not> files_truncated then corner (style self)
               else junction (style self))"

definition next_prefix :: "generator \<Rightarrow> string \<Rightarrow> nat \<Rightarrow> bool \<Rightarrow> nat \<Rightarrow> string" where
  "next_prefix self prefix n files_truncated i =
     prefix @ (if i + 1 = n \<and> \<not> files_truncated then space (style self)
               else vertical (style self))"

text \<open>Outputs form a monoid: lines are appended and counters added.\<close>

definition empty_out :: tree_output where
  "empty_out = \<lparr>tree_lines = [], stats = reset_stats\<rparr>"

definition add_stats :: "stats \<Rightarrow> stats \<Rightarrow> stats" where
  "add_stats a b =
     \<lparr>folders = folders a + folders b, files = files a + files b,
      total_size = total_size a + total_size b,
      truncated_folders = truncated_folders a + truncated_folders b\<rparr>"

definition out_append :: "tree_output \<Rightarrow> tree_output \<Rightarrow> tree_output" where
  "out_append a b = \<lparr>tree_lines = tree_lines a @ tree_lines b, stats = add_stats (stats a) (stats b)\<rparr>"

text \<open>What \<open>_build_tree\<close> appends and counts for a directory, started on the empty output.\<close>

definition subtree ::
  "generator \<Rightarrow> entry \<Rightarrow> string \<Rightarrow> int \<Rightarrow> bool \<Rightarrow> bool \<Rightarrow> bool \<Rightarrow> string list option \<Rightarrow>
   string list option \<Rightarrow> tree_output" where
  "subtree self directory prefix depth show_size show_hidden sort_dirs_first include_categories
     exclude_patterns =
     build_tree self empty_out directory prefix depth show_size show_hidden sort_dirs_first
       include_categories exclude_patterns"

text \<open>
  Lines 265 to 293 for one directory listing: \<open>entries_to_show\<close>, \<open>hidden_count\<close> and
  \<open>files_truncated\<close>.
\<close>

definition level ::
  "generator \<Rightarrow> bool \<Rightarrow> bool \<Rightarrow> string list option \<Rightarrow> string list option \<Rightarrow> entry list \<Rightarrow>
   entry list \<times> int \<times> bool" where
  "level self show_hidden sort_dirs_first include_categories exclude_patterns entries =
     (let entries = filter_entries show_hidden include_categories exclude_patterns entries;
          entries = sort_entries sort_dirs_first entries;
          directories = filter is_dir entries;
          file_list = filter is_file entries;
          (displayed_files, hidden_count, files_truncated) =
             limit_files (max_files_per_folder self) file_list
      in (directories @ displayed_files, hidden_count, files_truncated))"

text \<open>Line 287, the counter of truncated folders, and lines 329 to 333, the truncation line.\<close>

definition count_truncated :: "bool \<Rightarrow> tree_output \<Rightarrow> tree_output" where
  "count_truncated files_truncated out =
     (if files_truncated
      then out\<lparr>stats := (stats out)\<lparr>truncated_folders := truncated_folders (stats out) + 1\<rparr>\<rparr>
      else out)"

definition add_truncation_line ::
  "generator \<Rightarrow> string \<Rightarrow> nat \<Rightarrow> int \<Rightarrow> bool \<Rightarrow> tree_output \<Rightarrow> tree_output" where
  "add_truncation_line self prefix shown hidden_count files_truncated out =
     (if files_truncated
      then out\<lparr>tree_lines := tree_lines out @ [truncation_line self prefix shown hidden_count]\<rparr>
      else out)"

text \<open>What the loop body appends and counts for one entry, before it recurses.\<close>

definition entry_out :: "generator \<Rightarrow> entry \<Rightarrow> string \<Rightarrow> bool \<Rightarrow> tree_output" where
  "entry_out self entry cp show_size =
     \<lparr>tree_lines = [entry_line self entry cp show_size], stats = count_entry entry reset_stats\<rparr>"

text \<open>
  What one pass of the loop body contributes: the entry's own line and counters, followed,
  for a directory, by what the recursive call contributes.
\<close>

definition entry_block ::
  "generator \<Rightarrow> string \<Rightarrow> int \<Rightarrow> bool \<Rightarrow> bool \<Rightarrow> bool \<Rightarrow> string list option \<Rightarrow>
   string list option \<Rightarrow> nat \<Rightarrow> bool \<Rightarrow> nat \<times> entry \<Rightarrow> tree_output" where
  "entry_block self prefix depth show_size show_hidden sort_dirs_first include_categories
     exclude_patterns n files_truncated =
     (\<lambda>(i, e).
        out_append (entry_out self e (current_prefix self prefix n files_truncated i) show_size)
          (if is_dir e
           then subtree self e (next_prefix self prefix n files_truncated i) (depth + 1)
                  show_size show_hidden sort_dirs_first include_categories exclude_patterns
           else empty_out))"

definition concat_out :: "tree_output list \<Rightarrow> tree_output" where
  "concat_out os = foldr out_append os empty_out"

subsection \<open>Concrete inputs\<close>

text \<open>
  A generator with the \<open>ascii\<close> style and the \<open>SIMPLE\<close> icons, and small trees, for
  evaluating the embedding.
\<close>

definition ascii_generator :: "int \<Rightarrow> int option \<Rightarrow> generator" where
  "ascii_generator d m =
     \<lparr>style = ascii_style, icon_set = SIMPLE, max_depth = d, max_files_per_folder = m\<rparr>"

definition two_files :: entry where
  "two_files = Dir ''r'' (Some [File ''b'' 2, File ''a'' 1])"

definition nested :: entry where
  "nested = Dir ''r'' (Some [File ''a'' 2, Dir ''d'' (Some [File ''deep'' 1])])"

definition locked :: entry where
  "locked = Dir ''r'' (Some [File ''z'' 1, Dir ''u'' None])"

text \<open>The generator that \<open>FolderTreeGenerator()\<close> builds by default, but for the two limits.\<close>

definition simple_generator :: "int \<Rightarrow> int option \<Rightarrow> generator" where
  "simple_generator d m =
     \<lparr>style = simple_style, icon_set = SIMPLE, max_depth = d, max_files_per_folder = m\<rparr>"

text \<open>
  The scenario of the specification: a root that holds the folder \<open>src\<close> with the files
  \<open>a.py\<close>, \<open>b.py\<close>, \<open>c.py\<close> and the file \<open>notes.md\<close>; \<open>max_depth = 3\<close> and
  \<open>max_files_per_folder = 2\<close>. The style, the icons, the name of the root and the sizes are
  left open, and \<open>iterdir\<close> yields the entries out of order.
\<close>

definition scenario_generator :: "tree_style \<Rightarrow> icon_set \<Rightarrow> generator" where
  "scenario_generator st ic =
     \<lparr>style = st, icon_set = ic, max_depth = 3, max_files_per_folder = Some 2\<rparr>"

definition scenario_src :: "nat \<Rightarrow> nat \<Rightarrow> nat \<Rightarrow> entry" where
  "scenario_src sa sb sc = Dir ''src'' (Some [File ''c.py'' sc, File ''a.py'' sa, File ''b.py'' sb])"

definition scenario :: "string \<Rightarrow> nat \<Rightarrow> nat \<Rightarrow> nat \<Rightarrow> nat \<Rightarrow> entry" where
  "scenario root_name sa sb sc sn =
     Dir root_name (Some [File ''notes.md'' sn, scenario_src sa sb sc])"

text \<open>
  The unit as the specification words it: the largest unit among B, KB, MB, GB, TB such that
  the scaled value is below 1024; \<open>None\<close> when no unit is such.
\<close>

definition spec_largest_unit :: "nat \<Rightarrow> nat option" where
  "spec_largest_unit n =
     (case filter (\<lambda>i. (of_nat n :: rat) / 1024 ^ i < 1024) (rev [0..<length size_names]) of
        [] \<Rightarrow> None
      | i # rest \<Rightarrow> Some i)"

text \<open>
  The kind of a line, by the place of \<open>_build_tree\<close> and \<open>generate_tree\<close> that appends it:
  the line of the root or of an entry that is a directory (lines 244 and 311 to 313), the
  line of any other entry (lines 314 to 320), the truncation line (lines 330 to 333).
\<close>

datatype line_kind = DirLine | FileLine | TruncLine

text \<open>
  The lines that \<open>_build_tree\<close> appends for a directory, each with its kind: the walk of
  \<open>build_tree\<close> without the counters.
\<close>

function kinded_lines ::
  "generator \<Rightarrow> entry \<Rightarrow> string \<Rightarrow> int \<Rightarrow> bool \<Rightarrow> bool \<Rightarrow> bool \<Rightarrow> string list option \<Rightarrow>
   string list option \<Rightarrow> (line_kind \<times> string) list" where
  "kinded_lines self directory prefix depth show_size show_hidden sort_dirs_first
     include_categories exclude_patterns =
     (if max_depth self \<le> depth then []
      else
        case iterdir directory of
          None \<Rightarrow> []
        | Some es \<Rightarrow>
            (case level self show_hidden sort_dirs_first include_categories exclude_patterns es of
               (shown, hidden_count, tr) \<Rightarrow>
                 concat (map (\<lambda>(i, e).
                     if is_dir e
                     then (DirLine, entry_line self e
                             (current_prefix self prefix (length shown) tr i) show_size) #
                          kinded_lines self e (next_prefix self prefix (length shown) tr i)
                            (depth + 1) show_size show_hidden sort_dirs_first
                            include_categories exclude_patterns
                     else [(FileLine, entry_line self e
                              (current_prefix self prefix (length shown) tr i) show_size)])
                   (enumerate 0 shown))
                 @ (if tr then [(TruncLine, truncation_line self prefix (length shown)
                                   hidden_count)]
                    else [])))"
  by pat_completeness auto
termination
  by (relation "measure (\<lambda>(self, directory, prefix, depth, rest). nat (max_depth self - depth))")
     auto

declare kinded_lines.simps [simp del]

text \<open>All the lines of a run with their kinds, the root line first.\<close>

definition kinded_run ::
  "generator \<Rightarrow> entry \<Rightarrow> nat option \<Rightarrow> bool \<Rightarrow> bool \<Rightarrow> bool \<Rightarrow> string list option \<Rightarrow>
   string list option \<Rightarrow> (line_kind \<times> string) list" where
  "kinded_run self root_entry rglob_total show_size show_hidden sort_dirs_first
     include_categories exclude_patterns =
     (DirLine, root_line self root_entry rglob_total show_size) #
     kinded_lines self root_entry [] 0 show_size show_hidden sort_dirs_first
       include_categories exclude_patterns"

definition count_kind :: "line_kind \<Rightarrow> (line_kind \<times> string) list \<Rightarrow> nat" where
  "count_kind k ls = length (filter (\<lambda>l. fst l = k) ls)"

definition mixed :: entry where
  "mixed = Dir ''r'' (Some [File ''b'' 2, File ''a'' 4, Dir ''d'' (Some [File ''x'' 3])])"

section \<open>Properties\<close>

subsection \<open>Strings\<close>

lemma startswith_iff: "startswith s p \<longleftrightarrow> (\<exists>post. s = p @ post)"
  unfolding startswith_def
  by (metis append_eq_conv_conj append_take_drop_id)

lemma str_contains_iff: "str_contains pattern s \<longleftrightarrow> (\<exists>pre post. s = pre @ pattern @ post)"
proof (induction s)
  case Nil
  then show ?case by auto
next
  case (Cons c s)
  show ?case
  proof
    assume "str_contains pattern (c # s)"
    then consider "startswith (c # s) pattern" | "str_contains pattern s" by auto
    then show "\<exists>pre post. c # s = pre @ pattern @ post"
    proof cases
      case 1
      then obtain post where "c # s = pattern @ post" by (auto simp: startswith_iff)
      then have "c # s = [] @ pattern @ post" by simp
      then show ?thesis by blast
    next
      case 2
      then obtain pre post where "s = pre @ pattern @ post" using Cons.IH by auto
      then have "c # s = (c # pre) @ pattern @ post" by simp
      then show ?thesis by blast
    qed
  next
    assume "\<exists>pre post. c # s = pre @ pattern @ post"
    then obtain pre post where eq: "c # s = pre @ pattern @ post" by auto
    show "str_contains pattern (c # s)"
    proof (cases pre)
      case Nil
      with eq have "startswith (c # s) pattern" by (auto simp: startswith_iff)
      then show ?thesis by simp
    next
      case (Cons a pre')
      with eq have "s = pre' @ pattern @ post" by simp
      then have "str_contains pattern s" using Cons.IH by blast
      then show ?thesis by simp
    qed
  qed
qed

lemma lower_dot_py: "lower ''.py'' = ''.py''"
  by (simp add: lower_def lower_char_def)

lemma suffix_test_a_py: "suffix ''test_a.py'' = ''.py''"
  by (simp add: suffix_def)

subsection \<open>The entry filter\<close>

text \<open>
  C5. An entry whose name contains one of the configured exclude patterns as a literal
  substring is rejected by \<open>should_include_file\<close>, whatever the inclusion categories are:
  exclusion takes precedence over inclusion.
\<close>

theorem exclusion_wins:
  assumes "pattern \<in> set exclude_patterns"
    and "name file_path = pre @ pattern @ post"
  shows "should_include_file file_path include_categories (Some exclude_patterns) = False"
proof -
  have "str_contains pattern (name file_path)"
    using assms(2) str_contains_iff by blast
  with assms(1) have "list_ex (\<lambda>p. str_contains p (name file_path)) exclude_patterns"
    by (auto simp: list_ex_iff)
  moreover from assms(1) have "exclude_patterns \<noteq> []" by auto
  ultimately show ?thesis by (simp add: should_include_file_def)
qed

text \<open>
  The file \<open>test_a.py\<close> belongs to the category \<open>code\<close> and is included without exclude
  patterns; with the pattern \<open>test\<close> configured it is excluded.
\<close>

theorem exclusion_wins_witness:
  "''test'' \<in> set [''tmp'', ''test'']
   \<and> name (File ''test_a.py'' 7) = [] @ ''test'' @ ''_a.py''
   \<and> should_include_file (File ''test_a.py'' 7) (Some [''code'']) None = True
   \<and> should_include_file (File ''test_a.py'' 7) (Some [''code'']) (Some [''tmp'', ''test''])
       = False"
  using exclusion_wins [of "''test''" "[''tmp'', ''test'']" "File ''test_a.py'' 7" "[]" "''_a.py''"
      "Some [''code'']"]
  by (simp add: should_include_file_def suffix_test_a_py lower_dot_py dict_get_def
      file_categories_def)

subsection \<open>A root path that does not exist\<close>

text \<open>
  C6. When the root path does not exist, \<open>generate_tree\<close> raises \<open>FileNotFoundError\<close>; the
  line list is empty and the statistics are at their reset values, all four zero.
\<close>

theorem generate_tree_not_found:
  "generate_tree self out0 None rglob_total show_size show_hidden sort_dirs_first
     include_categories exclude_patterns =
     (Inl FileNotFoundError,
      out0\<lparr>tree_lines := [],
           stats := \<lparr>folders = 0, files = 0, total_size = 0, truncated_folders = 0\<rparr>\<rparr>)"
  by (simp add: generate_tree_def reset_stats_def)

subsection \<open>Unfolding \<open>build_tree\<close>\<close>

lemma build_tree_stop:
  "max_depth self \<le> depth \<Longrightarrow>
   build_tree self out directory prefix depth show_size show_hidden sort_dirs_first
     include_categories exclude_patterns = out"
  by (subst build_tree.simps) simp

lemma build_tree_unreadable:
  "iterdir directory = None \<Longrightarrow>
   build_tree self out directory prefix depth show_size show_hidden sort_dirs_first
     include_categories exclude_patterns = out"
  by (subst build_tree.simps) simp

lemma build_tree_unfold:
  "build_tree self out directory prefix depth show_size show_hidden sort_dirs_first
     include_categories exclude_patterns =
     (if depth \<ge> max_depth self then out
      else
        case iterdir directory of
          None \<Rightarrow> out
        | Some entries \<Rightarrow>
            let entries = filter_entries show_hidden include_categories exclude_patterns entries;
                entries = sort_entries sort_dirs_first entries;
                directories = filter is_dir entries;
                file_list = filter is_file entries;
                (displayed_files, hidden_count, files_truncated) =
                   limit_files (max_files_per_folder self) file_list;
                out = (if files_truncated
                       then out\<lparr>stats := (stats out)\<lparr>truncated_folders :=
                              truncated_folders (stats out) + 1\<rparr>\<rparr>
                       else out);
                entries_to_show = directories @ displayed_files;
                out = fold (visit self prefix depth show_size show_hidden sort_dirs_first
                        include_categories exclude_patterns (length entries_to_show)
                        files_truncated)
                      (enumerate 0 entries_to_show) out
            in if files_truncated
               then out\<lparr>tree_lines := tree_lines out @
                      [truncation_line self prefix (length entries_to_show) hidden_count]\<rparr>
               else out)"
  unfolding visit_def by (rule build_tree.simps)

lemma build_tree_level:
  assumes "\<not> max_depth self \<le> depth"
    and "iterdir directory = Some es"
    and "level self show_hidden sort_dirs_first include_categories exclude_patterns es =
         (shown, hidden_count, tr)"
  shows "build_tree self out directory prefix depth show_size show_hidden sort_dirs_first
     include_categories exclude_patterns =
     add_truncation_line self prefix (length shown) hidden_count tr
       (fold (visit self prefix depth show_size show_hidden sort_dirs_first include_categories
                exclude_patterns (length shown) tr)
          (enumerate 0 shown) (count_truncated tr out))"
proof -
  define S where "S = sort_entries sort_dirs_first
      (filter_entries show_hidden include_categories exclude_patterns es)"
  obtain df h t where lf: "limit_files (max_files_per_folder self) (filter is_file S) = (df, h, t)"
    by (cases "limit_files (max_files_per_folder self) (filter is_file S)") auto
  from assms(3) have "shown = filter is_dir S @ df" "hidden_count = h" "tr = t"
    by (simp_all add: level_def S_def [symmetric] lf Let_def)
  then show ?thesis
    by (subst build_tree_unfold)
       (simp add: assms(1,2) S_def [symmetric] lf Let_def count_truncated_def
          add_truncation_line_def)
qed

subsection \<open>The output of a call does not depend on the output before it\<close>

lemma out_append_empty_right [simp]: "out_append a empty_out = a"
  by (simp add: out_append_def empty_out_def add_stats_def reset_stats_def)

lemma out_append_empty_left [simp]: "out_append empty_out a = a"
  by (simp add: out_append_def empty_out_def add_stats_def reset_stats_def)

lemma out_append_assoc: "out_append (out_append a b) c = out_append a (out_append b c)"
  by (simp add: out_append_def add_stats_def)

lemma tree_lines_out_append [simp]: "tree_lines (out_append a b) = tree_lines a @ tree_lines b"
  by (simp add: out_append_def)

lemma stats_out_append [simp]: "stats (out_append a b) = add_stats (stats a) (stats b)"
  by (simp add: out_append_def)

lemma fold_frame:
  assumes "\<And>x s. x \<in> set xs \<Longrightarrow> f x s = out_append s (f x empty_out)"
  shows "fold f xs s = out_append s (fold f xs empty_out)"
  using assms
proof (induction xs arbitrary: s)
  case Nil
  then show ?case by simp
next
  case (Cons x xs)
  have step: "f x s = out_append s (f x empty_out)"
    by (rule Cons.prems) simp
  have tail: "\<And>t. fold f xs t = out_append t (fold f xs empty_out)"
    by (rule Cons.IH, rule Cons.prems) simp
  have "fold f (x # xs) s = fold f xs (f x s)" by simp
  also have "\<dots> = out_append (f x s) (fold f xs empty_out)"
    by (rule tail)
  also have "\<dots> = out_append s (out_append (f x empty_out) (fold f xs empty_out))"
    by (simp only: step out_append_assoc)
  also have "out_append (f x empty_out) (fold f xs empty_out) = fold f xs (f x empty_out)"
    by (rule tail [symmetric])
  finally show ?case by (simp only: fold_simps)
qed

lemma count_entry_add: "count_entry e st = add_stats st (count_entry e reset_stats)"
  by (simp add: count_entry_def add_stats_def reset_stats_def)

lemma count_truncated_frame:
  "count_truncated tr out = out_append out (count_truncated tr empty_out)"
  by (simp add: count_truncated_def out_append_def empty_out_def add_stats_def reset_stats_def)

lemma add_truncation_line_frame:
  "add_truncation_line self prefix n h tr (out_append a b) =
   out_append a (add_truncation_line self prefix n h tr b)"
  by (simp add: add_truncation_line_def out_append_def)

lemma entry_step:
  "s\<lparr>stats := count_entry e (stats s),
     tree_lines := tree_lines s @ [entry_line self e cp show_size]\<rparr> =
   out_append s (entry_out self e cp show_size)"
proof -
  have "count_entry e (stats s) = add_stats (stats s) (count_entry e reset_stats)"
    by (rule count_entry_add)
  then show ?thesis
    by (cases s) (simp add: out_append_def entry_out_def)
qed

lemma visit_eq:
  "visit self prefix depth show_size show_hidden sort_dirs_first include_categories
     exclude_patterns n tr (i, e) s =
   (if is_dir e
    then build_tree self
           (out_append s (entry_out self e (current_prefix self prefix n tr i) show_size))
           e (next_prefix self prefix n tr i) (depth + 1) show_size show_hidden sort_dirs_first
           include_categories exclude_patterns
    else out_append s (entry_out self e (current_prefix self prefix n tr i) show_size))"
proof -
  have "visit self prefix depth show_size show_hidden sort_dirs_first include_categories
     exclude_patterns n tr (i, e) s =
     (let out = s\<lparr>stats := count_entry e (stats s),
                   tree_lines := tree_lines s @
                     [entry_line self e (current_prefix self prefix n tr i) show_size]\<rparr>
      in if is_dir e
         then build_tree self out e (next_prefix self prefix n tr i) (depth + 1) show_size
                show_hidden sort_dirs_first include_categories exclude_patterns
         else out)"
    by (simp add: visit_def Let_def current_prefix_def next_prefix_def)
  then show ?thesis by (simp only: entry_step Let_def)
qed

lemma visit_frame:
  assumes "\<And>o' e p. build_tree self o' e p (depth + 1) show_size show_hidden sort_dirs_first
      include_categories exclude_patterns =
      out_append o' (build_tree self empty_out e p (depth + 1) show_size show_hidden
        sort_dirs_first include_categories exclude_patterns)"
  shows "visit self prefix depth show_size show_hidden sort_dirs_first include_categories
      exclude_patterns n tr x s =
      out_append s (visit self prefix depth show_size show_hidden sort_dirs_first
        include_categories exclude_patterns n tr x empty_out)"
proof -
  obtain i e where x: "x = (i, e)" by (cases x)
  define d where "d = entry_out self e (current_prefix self prefix n tr i) show_size"
  define np where "np = next_prefix self prefix n tr i"
  show ?thesis
  proof (cases "is_dir e")
    case True
    have "visit self prefix depth show_size show_hidden sort_dirs_first include_categories
        exclude_patterns n tr x s =
        build_tree self (out_append s d) e np (depth + 1) show_size show_hidden sort_dirs_first
          include_categories exclude_patterns"
      using True by (simp only: x visit_eq d_def np_def if_True)
    also have "\<dots> = out_append (out_append s d) (build_tree self empty_out e np (depth + 1)
        show_size show_hidden sort_dirs_first include_categories exclude_patterns)"
      by (rule assms)
    also have "\<dots> = out_append s (out_append d (build_tree self empty_out e np (depth + 1)
        show_size show_hidden sort_dirs_first include_categories exclude_patterns))"
      by (rule out_append_assoc)
    also have "out_append d (build_tree self empty_out e np (depth + 1)
        show_size show_hidden sort_dirs_first include_categories exclude_patterns)
      = build_tree self d e np (depth + 1) show_size show_hidden sort_dirs_first
          include_categories exclude_patterns"
      by (rule assms [symmetric])
    also have "\<dots> = visit self prefix depth show_size show_hidden sort_dirs_first
        include_categories exclude_patterns n tr x empty_out"
      using True by (simp only: x visit_eq d_def np_def if_True out_append_empty_left)
    finally show ?thesis .
  next
    case False
    then show ?thesis
      by (simp only: x visit_eq if_False out_append_empty_left)
  qed
qed

lemma build_tree_frame:
  "build_tree self out directory prefix depth show_size show_hidden sort_dirs_first
     include_categories exclude_patterns =
   out_append out (build_tree self empty_out directory prefix depth show_size show_hidden
     sort_dirs_first include_categories exclude_patterns)"
proof (induction "nat (max_depth self - depth)" arbitrary: out directory prefix depth)
  case 0
  then have "max_depth self \<le> depth" by simp
  then show ?case by (simp add: build_tree_stop)
next
  case (Suc k)
  then have lt: "\<not> max_depth self \<le> depth" and k: "k = nat (max_depth self - (depth + 1))"
    by auto
  have IH: "\<And>o' e p. build_tree self o' e p (depth + 1) show_size show_hidden sort_dirs_first
      include_categories exclude_patterns =
      out_append o' (build_tree self empty_out e p (depth + 1) show_size show_hidden
        sort_dirs_first include_categories exclude_patterns)"
    using Suc.hyps(1) [OF k] .
  show ?case
  proof (cases "iterdir directory")
    case None
    then show ?thesis by (simp add: build_tree_unreadable)
  next
    case (Some es)
    obtain shown h tr where lv:
      "level self show_hidden sort_dirs_first include_categories exclude_patterns es =
       (shown, h, tr)"
      by (cases "level self show_hidden sort_dirs_first include_categories exclude_patterns es")
    let ?f = "visit self prefix depth show_size show_hidden sort_dirs_first include_categories
                exclude_patterns (length shown) tr"
    have ff: "\<And>s. fold ?f (enumerate 0 shown) s = out_append s (fold ?f (enumerate 0 shown) empty_out)"
      by (rule fold_frame) (rule visit_frame [OF IH])
    have "build_tree self out directory prefix depth show_size show_hidden sort_dirs_first
        include_categories exclude_patterns =
        add_truncation_line self prefix (length shown) h tr
          (fold ?f (enumerate 0 shown) (count_truncated tr out))"
      by (rule build_tree_level [OF lt Some lv])
    also have "\<dots> = add_truncation_line self prefix (length shown) h tr
          (out_append (out_append out (count_truncated tr empty_out))
             (fold ?f (enumerate 0 shown) empty_out))"
      by (subst ff, subst count_truncated_frame) (rule refl)
    also have "\<dots> = out_append out (add_truncation_line self prefix (length shown) h tr
          (out_append (count_truncated tr empty_out) (fold ?f (enumerate 0 shown) empty_out)))"
      by (simp only: out_append_assoc add_truncation_line_frame)
    also have "add_truncation_line self prefix (length shown) h tr
          (out_append (count_truncated tr empty_out) (fold ?f (enumerate 0 shown) empty_out))
       = add_truncation_line self prefix (length shown) h tr
          (fold ?f (enumerate 0 shown) (count_truncated tr empty_out))"
      by (subst (2) ff) (rule refl)
    also have "\<dots> = build_tree self empty_out directory prefix depth show_size show_hidden
        sort_dirs_first include_categories exclude_patterns"
      by (rule build_tree_level [OF lt Some lv, symmetric])
    finally show ?thesis .
  qed
qed

subsection \<open>The layout of one level\<close>

lemma visit_append:
  "visit self prefix depth show_size show_hidden sort_dirs_first include_categories
     exclude_patterns n tr x s =
   out_append s (entry_block self prefix depth show_size show_hidden sort_dirs_first
     include_categories exclude_patterns n tr x)"
proof -
  obtain i e where x: "x = (i, e)" by (cases x)
  show ?thesis
  proof (cases "is_dir e")
    case True
    then show ?thesis
      unfolding x visit_eq entry_block_def subtree_def
      by (subst build_tree_frame) (simp add: out_append_assoc)
  next
    case False
    then show ?thesis
      unfolding x visit_eq entry_block_def by simp
  qed
qed

lemma concat_out_Nil [simp]: "concat_out [] = empty_out"
  by (simp add: concat_out_def)

lemma concat_out_Cons [simp]: "concat_out (a # os) = out_append a (concat_out os)"
  by (simp add: concat_out_def)

lemma concat_out_append: "concat_out (xs @ ys) = out_append (concat_out xs) (concat_out ys)"
  by (induction xs) (simp_all add: out_append_assoc)

lemma tree_lines_empty_out [simp]: "tree_lines empty_out = []"
  by (simp add: empty_out_def)

lemma tree_lines_concat_out: "tree_lines (concat_out os) = concat (map tree_lines os)"
  by (induction os) simp_all

lemma fold_blocks:
  assumes "\<And>x s. f x s = out_append s (g x)"
  shows "fold f xs s = out_append s (concat_out (map g xs))"
proof (induction xs arbitrary: s)
  case Nil
  then show ?case by simp
next
  case (Cons x xs)
  have "fold f (x # xs) s = fold f xs (f x s)" by simp
  also have "\<dots> = out_append (f x s) (concat_out (map g xs))" by (rule Cons.IH)
  also have "\<dots> = out_append (out_append s (g x)) (concat_out (map g xs))"
    by (simp only: assms [of x s])
  finally show ?case by (simp add: out_append_assoc)
qed

lemma build_tree_layout:
  assumes "\<not> max_depth self \<le> depth"
    and "iterdir directory = Some es"
    and "level self show_hidden sort_dirs_first include_categories exclude_patterns es =
         (shown, hidden_count, tr)"
  shows "build_tree self out directory prefix depth show_size show_hidden sort_dirs_first
     include_categories exclude_patterns =
     out_append out
       (add_truncation_line self prefix (length shown) hidden_count tr
          (out_append (count_truncated tr empty_out)
             (concat_out (map (entry_block self prefix depth show_size show_hidden
                sort_dirs_first include_categories exclude_patterns (length shown) tr)
                (enumerate 0 shown)))))"
proof -
  let ?f = "visit self prefix depth show_size show_hidden sort_dirs_first include_categories
                exclude_patterns (length shown) tr"
  let ?g = "entry_block self prefix depth show_size show_hidden sort_dirs_first
                include_categories exclude_patterns (length shown) tr"
  have "build_tree self out directory prefix depth show_size show_hidden sort_dirs_first
        include_categories exclude_patterns =
        add_truncation_line self prefix (length shown) hidden_count tr
          (fold ?f (enumerate 0 shown) (count_truncated tr out))"
    by (rule build_tree_level [OF assms])
  also have "fold ?f (enumerate 0 shown) (count_truncated tr out) =
      out_append (count_truncated tr out) (concat_out (map ?g (enumerate 0 shown)))"
    by (rule fold_blocks) (rule visit_append)
  also have "count_truncated tr out = out_append out (count_truncated tr empty_out)"
    by (rule count_truncated_frame)
  finally show ?thesis
    by (simp only: out_append_assoc add_truncation_line_frame)
qed

lemma tree_lines_add_truncation_line:
  "tree_lines (add_truncation_line self prefix n h tr out) =
   tree_lines out @ (if tr then [truncation_line self prefix n h] else [])"
  by (simp add: add_truncation_line_def)

lemma tree_lines_count_truncated [simp]: "tree_lines (count_truncated tr out) = tree_lines out"
  by (simp add: count_truncated_def)

lemma build_tree_lines:
  assumes "\<not> max_depth self \<le> depth"
    and "iterdir directory = Some es"
    and "level self show_hidden sort_dirs_first include_categories exclude_patterns es =
         (shown, hidden_count, tr)"
  shows "tree_lines (build_tree self out directory prefix depth show_size show_hidden
      sort_dirs_first include_categories exclude_patterns) =
     tree_lines out
     @ concat (map (\<lambda>x. tree_lines (entry_block self prefix depth show_size show_hidden
                sort_dirs_first include_categories exclude_patterns (length shown) tr x))
          (enumerate 0 shown))
     @ (if tr then [truncation_line self prefix (length shown) hidden_count] else [])"
  by (simp add: build_tree_layout [OF assms] tree_lines_add_truncation_line
      tree_lines_concat_out comp_def)

subsection \<open>Unfolding \<open>generate_tree\<close>\<close>

lemma stats_empty_out [simp]: "stats empty_out = reset_stats"
  by (simp add: empty_out_def)

lemma generate_tree_Some:
  "generate_tree self out0 (Some r) rglob_total show_size show_hidden sort_dirs_first
      include_categories exclude_patterns =
   (let out = out_append
        \<lparr>tree_lines = [root_line self r rglob_total show_size],
         stats = \<lparr>folders = 1, files = 0, total_size = 0, truncated_folders = 0\<rparr>\<rparr>
        (subtree self r [] 0 show_size show_hidden sort_dirs_first include_categories
           exclude_patterns)
    in (Inr (tree_lines out), out))"
proof -
  have upd: "\<And>a b. out0\<lparr>tree_lines := a, stats := b\<rparr> = \<lparr>tree_lines = a, stats = b\<rparr>"
    by (cases out0) simp
  show ?thesis
    unfolding generate_tree_def subtree_def
    by (simp add: Let_def reset_stats_def build_tree_frame [symmetric] upd)
qed

subsection \<open>What a level shows\<close>

lemma set_slice_to: "set (slice_to xs n) \<subseteq> set xs"
  by (auto simp: slice_to_def dest: in_set_takeD)

lemma limit_files_subset: "limit_files m fs = (df, h, tr) \<Longrightarrow> set df \<subseteq> set fs"
  by (cases m) (auto split: if_splits dest: subsetD [OF set_slice_to])

lemma set_sort_entries [simp]: "set (sort_entries b es) = set es"
  by (simp add: sort_entries_def)

lemma set_filter_entries: "set (filter_entries sh inc exc es) \<subseteq> set es"
  by (auto simp: filter_entries_def Let_def)

lemma level_subset:
  assumes "level self show_hidden sort_dirs_first include_categories exclude_patterns es =
      (shown, h, tr)"
  shows "set shown \<subseteq> set es"
proof -
  define S where "S = sort_entries sort_dirs_first
      (filter_entries show_hidden include_categories exclude_patterns es)"
  obtain df h' t' where lf: "limit_files (max_files_per_folder self) (filter is_file S) = (df, h', t')"
    by (cases "limit_files (max_files_per_folder self) (filter is_file S)") auto
  from assms have shown: "shown = filter is_dir S @ df"
    by (simp add: level_def S_def [symmetric] lf Let_def)
  have "set S \<subseteq> set es" unfolding S_def using set_filter_entries by simp
  moreover have "set df \<subseteq> set S" using limit_files_subset [OF lf] by auto
  ultimately show ?thesis unfolding shown by auto
qed

lemma concat_map_singleton: "concat (map (\<lambda>x. [f x]) xs) = map f xs"
  by (induction xs) simp_all

subsection \<open>The depth bound\<close>

text \<open>
  C4. With \<open>max_depth = 1\<close> the lines returned by \<open>generate_tree\<close> are the root line, one
  line for each entry shown at the root's own level, and the truncation line of that level
  if there is one; the entries shown are children of the root. The recursive call at depth 1
  returns at once, so nothing below a child of the root contributes a line.
\<close>

theorem depth_one_shows_children_only:
  assumes "max_depth self = 1"
  shows "fst (generate_tree self out0 (Some r) rglob_total show_size show_hidden sort_dirs_first
            include_categories exclude_patterns) =
         Inr (root_line self r rglob_total show_size #
              (case iterdir r of
                 None \<Rightarrow> []
               | Some es \<Rightarrow>
                   (case level self show_hidden sort_dirs_first include_categories
                           exclude_patterns es of
                      (shown, hidden_count, tr) \<Rightarrow>
                        map (\<lambda>(i, e). entry_line self e
                               (current_prefix self [] (length shown) tr i) show_size)
                          (enumerate 0 shown)
                        @ (if tr then [truncation_line self [] (length shown) hidden_count]
                           else []))))
       \<and> (\<forall>es shown hidden_count tr.
            iterdir r = Some es \<longrightarrow>
            level self show_hidden sort_dirs_first include_categories exclude_patterns es =
              (shown, hidden_count, tr) \<longrightarrow>
            set shown \<subseteq> set es)"
proof
  let ?sub = "subtree self r [] 0 show_size show_hidden sort_dirs_first include_categories
      exclude_patterns"
  have lt: "\<not> max_depth self \<le> 0" using assms by simp
  have stop: "\<And>e p. subtree self e p 1 show_size show_hidden sort_dirs_first
      include_categories exclude_patterns = empty_out"
    unfolding subtree_def by (rule build_tree_stop) (simp add: assms)
  have sub: "tree_lines ?sub =
      (case iterdir r of
         None \<Rightarrow> []
       | Some es \<Rightarrow>
           (case level self show_hidden sort_dirs_first include_categories exclude_patterns es of
              (shown, hidden_count, tr) \<Rightarrow>
                map (\<lambda>(i, e). entry_line self e
                       (current_prefix self [] (length shown) tr i) show_size)
                  (enumerate 0 shown)
                @ (if tr then [truncation_line self [] (length shown) hidden_count] else [])))"
  proof (cases "iterdir r")
    case None
    then show ?thesis by (simp add: subtree_def build_tree_unreadable)
  next
    case (Some es)
    obtain shown h tr where lv:
      "level self show_hidden sort_dirs_first include_categories exclude_patterns es =
       (shown, h, tr)"
      by (cases "level self show_hidden sort_dirs_first include_categories exclude_patterns es")
    have block: "tree_lines (entry_block self [] 0 show_size show_hidden sort_dirs_first
          include_categories exclude_patterns (length shown) tr x) =
        [(\<lambda>(i, e). entry_line self e (current_prefix self [] (length shown) tr i) show_size) x]"
      for x
      by (cases x) (simp add: entry_block_def stop entry_out_def)
    show ?thesis
      unfolding subtree_def
      by (simp add: build_tree_lines [OF lt Some lv] Some lv block concat_map_singleton)
  qed
  show "fst (generate_tree self out0 (Some r) rglob_total show_size show_hidden sort_dirs_first
            include_categories exclude_patterns) =
         Inr (root_line self r rglob_total show_size #
              (case iterdir r of
                 None \<Rightarrow> []
               | Some es \<Rightarrow>
                   (case level self show_hidden sort_dirs_first include_categories
                           exclude_patterns es of
                      (shown, hidden_count, tr) \<Rightarrow>
                        map (\<lambda>(i, e). entry_line self e
                               (current_prefix self [] (length shown) tr i) show_size)
                          (enumerate 0 shown)
                        @ (if tr then [truncation_line self [] (length shown) hidden_count]
                           else []))))"
    by (simp add: generate_tree_Some Let_def sub)
next
  show "\<forall>es shown hidden_count tr.
            iterdir r = Some es \<longrightarrow>
            level self show_hidden sort_dirs_first include_categories exclude_patterns es =
              (shown, hidden_count, tr) \<longrightarrow>
            set shown \<subseteq> set es"
    using level_subset by blast
qed

text \<open>
  The root holds a file and a directory that holds a file of its own; with \<open>max_depth = 1\<close>
  the file \<open>deep\<close> inside the directory gets no line.
\<close>

theorem depth_one_shows_children_only_witness:
  "max_depth (ascii_generator 1 None) = 1
   \<and> fst (generate_tree (ascii_generator 1 None) empty_out (Some nested) None False False True
           None None) =
       Inr [[CHR 0xF0, CHR 0x9F, CHR 0x93, CHR 0x82, CHR '' '', CHR ''r'', CHR ''/''],
            ''+- + d/'', ''+- - a'']"
proof -
  have h: "max_depth (ascii_generator 1 None) = 1"
    by (simp add: ascii_generator_def)
  have rhs: "root_line (ascii_generator 1 None) nested None False #
      (case iterdir nested of
         None \<Rightarrow> []
       | Some es \<Rightarrow>
           (case level (ascii_generator 1 None) False True None None es of
              (shown, hidden_count, tr) \<Rightarrow>
                map (\<lambda>(i, e). entry_line (ascii_generator 1 None) e
                       (current_prefix (ascii_generator 1 None) [] (length shown) tr i) False)
                  (enumerate 0 shown)
                @ (if tr then [truncation_line (ascii_generator 1 None) [] (length shown)
                                 hidden_count]
                   else []))) =
      [[CHR 0xF0, CHR 0x9F, CHR 0x93, CHR 0x82, CHR '' '', CHR ''r'', CHR ''/''],
       ''+- + d/'', ''+- - a'']"
    by code_simp
  have "fst (generate_tree (ascii_generator 1 None) empty_out (Some nested) None False False True
           None None) =
       Inr [[CHR 0xF0, CHR 0x9F, CHR 0x93, CHR 0x82, CHR '' '', CHR ''r'', CHR ''/''],
            ''+- + d/'', ''+- - a'']"
    using depth_one_shows_children_only [OF h, of empty_out nested None False False True None None]
    by (simp only: rhs)
  with h show ?thesis by (rule conjI)
qed

subsection \<open>A limit of zero files\<close>

lemma level_no_limit:
  assumes "max_files_per_folder self = None \<or> max_files_per_folder self = Some 0"
  shows "level self show_hidden sort_dirs_first include_categories exclude_patterns es =
     (filter is_dir (sort_entries sort_dirs_first
         (filter_entries show_hidden include_categories exclude_patterns es))
      @ filter is_file (sort_entries sort_dirs_first
         (filter_entries show_hidden include_categories exclude_patterns es)),
      0, False)"
  using assms by (auto simp: level_def Let_def)

lemma count_truncated_False [simp]: "count_truncated False out = out"
  by (simp add: count_truncated_def)

lemma add_truncation_line_False [simp]: "add_truncation_line self prefix n h False out = out"
  by (simp add: add_truncation_line_def)

lemma truncated_concat_out:
  assumes "\<And>x. x \<in> set os \<Longrightarrow> truncated_folders (stats x) = 0"
  shows "truncated_folders (stats (concat_out os)) = 0"
  using assms by (induction os) (simp_all add: add_stats_def reset_stats_def)

lemma subtree_no_limit_truncated:
  assumes "max_files_per_folder self = None \<or> max_files_per_folder self = Some 0"
  shows "truncated_folders (stats (subtree self directory prefix depth show_size show_hidden
      sort_dirs_first include_categories exclude_patterns)) = 0"
proof (induction "nat (max_depth self - depth)" arbitrary: directory prefix depth)
  case 0
  then have "max_depth self \<le> depth" by simp
  then show ?case by (simp add: subtree_def build_tree_stop reset_stats_def)
next
  case (Suc k)
  then have lt: "\<not> max_depth self \<le> depth" and k: "k = nat (max_depth self - (depth + 1))"
    by auto
  note IH = Suc.hyps(1) [OF k]
  show ?case
  proof (cases "iterdir directory")
    case None
    then show ?thesis by (simp add: subtree_def build_tree_unreadable reset_stats_def)
  next
    case (Some es)
    note lv = level_no_limit [OF assms, of show_hidden sort_dirs_first include_categories
        exclude_patterns es]
    have block: "truncated_folders (stats (entry_block self prefix depth show_size show_hidden
        sort_dirs_first include_categories exclude_patterns n False x)) = 0" for x n
      by (cases x)
         (simp add: entry_block_def entry_out_def add_stats_def count_entry_def reset_stats_def IH)
    show ?thesis
      unfolding subtree_def build_tree_layout [OF lt Some lv]
      by (simp, rule truncated_concat_out) (auto simp: block)
  qed
qed

lemma entry_line_max_files [simp]:
  "entry_line (self\<lparr>max_files_per_folder := m\<rparr>) e cp show_size = entry_line self e cp show_size"
  by (simp add: entry_line_def get_file_icon_def)

lemma current_prefix_max_files [simp]:
  "current_prefix (self\<lparr>max_files_per_folder := m\<rparr>) prefix n tr i =
   current_prefix self prefix n tr i"
  by (simp add: current_prefix_def)

lemma next_prefix_max_files [simp]:
  "next_prefix (self\<lparr>max_files_per_folder := m\<rparr>) prefix n tr i = next_prefix self prefix n tr i"
  by (simp add: next_prefix_def)

lemma root_line_max_files [simp]:
  "root_line (self\<lparr>max_files_per_folder := m\<rparr>) r t show_size = root_line self r t show_size"
  by (simp add: root_line_def get_file_icon_def)

lemma subtree_zero_limit:
  assumes "max_files_per_folder self = Some 0"
  shows "subtree self directory prefix depth show_size show_hidden sort_dirs_first
      include_categories exclude_patterns =
    subtree (self\<lparr>max_files_per_folder := None\<rparr>) directory prefix depth show_size show_hidden
      sort_dirs_first include_categories exclude_patterns"
proof (induction "nat (max_depth self - depth)" arbitrary: directory prefix depth)
  case 0
  then have "max_depth self \<le> depth" by simp
  then show ?case by (simp add: subtree_def build_tree_stop)
next
  case (Suc k)
  then have lt: "\<not> max_depth self \<le> depth" and k: "k = nat (max_depth self - (depth + 1))"
    by auto
  note IH = Suc.hyps(1) [OF k]
  let ?self' = "self\<lparr>max_files_per_folder := None\<rparr>"
  have lt': "\<not> max_depth ?self' \<le> depth" using lt by simp
  show ?case
  proof (cases "iterdir directory")
    case None
    then show ?thesis by (simp add: subtree_def build_tree_unreadable)
  next
    case (Some es)
    have a: "max_files_per_folder self = None \<or> max_files_per_folder self = Some 0"
      using assms by simp
    have a': "max_files_per_folder ?self' = None \<or> max_files_per_folder ?self' = Some 0"
      by simp
    note lv = level_no_limit [OF a, of show_hidden sort_dirs_first include_categories
        exclude_patterns es]
    note lv' = level_no_limit [OF a', of show_hidden sort_dirs_first include_categories
        exclude_patterns es]
    have block: "entry_block self prefix depth show_size show_hidden
        sort_dirs_first include_categories exclude_patterns n False x =
        entry_block ?self' prefix depth show_size show_hidden
        sort_dirs_first include_categories exclude_patterns n False x" for x n
      by (cases x) (simp add: entry_block_def entry_out_def IH)
    have block': "entry_block self prefix depth show_size show_hidden
        sort_dirs_first include_categories exclude_patterns n False =
        entry_block ?self' prefix depth show_size show_hidden
        sort_dirs_first include_categories exclude_patterns n False" for n
      by (rule ext) (rule block)
    show ?thesis
      unfolding subtree_def build_tree_layout [OF lt Some lv] build_tree_layout [OF lt' Some lv']
      by (simp add: block')
  qed
qed

text \<open>
  C10. With \<open>max_files_per_folder = 0\<close> the guard of line 283 is false for every directory,
  since \<open>0\<close> is not truthy: every listing shows all its directories and all its files,
  with no hidden count and no truncation; \<open>generate_tree\<close> returns what it returns without
  a limit, so no truncation line is emitted; and \<open>truncated_folders\<close> is 0 at the end.
\<close>

theorem zero_limit_never_truncates:
  assumes "max_files_per_folder self = Some 0"
  shows "level self show_hidden sort_dirs_first include_categories exclude_patterns es =
           (filter is_dir (sort_entries sort_dirs_first
               (filter_entries show_hidden include_categories exclude_patterns es))
            @ filter is_file (sort_entries sort_dirs_first
               (filter_entries show_hidden include_categories exclude_patterns es)),
            0, False)
       \<and> generate_tree self out0 root_path rglob_total show_size show_hidden sort_dirs_first
           include_categories exclude_patterns =
         generate_tree (self\<lparr>max_files_per_folder := None\<rparr>) out0 root_path rglob_total show_size
           show_hidden sort_dirs_first include_categories exclude_patterns
       \<and> truncated_folders (stats (snd (generate_tree self out0 root_path rglob_total show_size
           show_hidden sort_dirs_first include_categories exclude_patterns))) = 0"
proof (intro conjI)
  have a: "max_files_per_folder self = None \<or> max_files_per_folder self = Some 0"
    using assms by simp
  show "level self show_hidden sort_dirs_first include_categories exclude_patterns es =
           (filter is_dir (sort_entries sort_dirs_first
               (filter_entries show_hidden include_categories exclude_patterns es))
            @ filter is_file (sort_entries sort_dirs_first
               (filter_entries show_hidden include_categories exclude_patterns es)),
            0, False)"
    by (rule level_no_limit [OF a])
  show "generate_tree self out0 root_path rglob_total show_size show_hidden sort_dirs_first
           include_categories exclude_patterns =
         generate_tree (self\<lparr>max_files_per_folder := None\<rparr>) out0 root_path rglob_total show_size
           show_hidden sort_dirs_first include_categories exclude_patterns"
  proof (cases root_path)
    case None
    then show ?thesis by (simp add: generate_tree_def)
  next
    case (Some r)
    then show ?thesis
      by (simp add: generate_tree_Some subtree_zero_limit [OF assms])
  qed
  show "truncated_folders (stats (snd (generate_tree self out0 root_path rglob_total show_size
           show_hidden sort_dirs_first include_categories exclude_patterns))) = 0"
  proof (cases root_path)
    case None
    then show ?thesis by (simp add: generate_tree_def reset_stats_def)
  next
    case (Some r)
    then show ?thesis
      by (simp add: generate_tree_Some Let_def add_stats_def subtree_no_limit_truncated [OF a])
  qed
qed

text \<open>A directory with two files and the limit 0: both files are listed.\<close>

theorem zero_limit_never_truncates_witness:
  "max_files_per_folder (ascii_generator 3 (Some 0)) = Some 0
   \<and> generate_tree (ascii_generator 3 (Some 0)) empty_out (Some two_files) None False False True
       None None =
     (Inr [[CHR 0xF0, CHR 0x9F, CHR 0x93, CHR 0x82, CHR '' '', CHR ''r'', CHR ''/''],
           ''+- - a'', ''+- - b''],
      \<lparr>tree_lines = [[CHR 0xF0, CHR 0x9F, CHR 0x93, CHR 0x82, CHR '' '', CHR ''r'', CHR ''/''],
           ''+- - a'', ''+- - b''],
       stats = \<lparr>folders = 1, files = 2, total_size = 3, truncated_folders = 0\<rparr>\<rparr>)"
proof -
  have h: "max_files_per_folder (ascii_generator 3 (Some 0)) = Some 0"
    by (simp add: ascii_generator_def)
  have ev: "generate_tree ((ascii_generator 3 (Some 0))\<lparr>max_files_per_folder := None\<rparr>) empty_out
      (Some two_files) None False False True None None =
     (Inr [[CHR 0xF0, CHR 0x9F, CHR 0x93, CHR 0x82, CHR '' '', CHR ''r'', CHR ''/''],
           ''+- - a'', ''+- - b''],
      \<lparr>tree_lines = [[CHR 0xF0, CHR 0x9F, CHR 0x93, CHR 0x82, CHR '' '', CHR ''r'', CHR ''/''],
           ''+- - a'', ''+- - b''],
       stats = \<lparr>folders = 1, files = 2, total_size = 3, truncated_folders = 0\<rparr>\<rparr>)"
    by code_simp
  show ?thesis
    using zero_limit_never_truncates [OF h, of False True None None "[]" empty_out
        "Some two_files" None False] ev h
    by simp
qed

subsection \<open>A directory that cannot be listed\<close>

lemma build_tree_empty_listing:
  assumes "\<And>n. max_files_per_folder self = Some n \<Longrightarrow> 0 \<le> n"
  shows "build_tree self out (Dir nm (Some [])) prefix depth show_size show_hidden
      sort_dirs_first include_categories exclude_patterns = out"
proof (cases "max_depth self \<le> depth")
  case True
  then show ?thesis by (rule build_tree_stop)
next
  case False
  have lf: "limit_files (max_files_per_folder self) [] = ([], 0, False)"
    using assms by (cases "max_files_per_folder self") auto
  have lv: "level self show_hidden sort_dirs_first include_categories exclude_patterns [] =
      ([], 0, False)"
    by (simp add: level_def filter_entries_def sort_entries_def lf)
  have it: "iterdir (Dir nm (Some [])) = Some []" by simp
  show ?thesis
    by (simp add: build_tree_level [OF False it lv])
qed

text \<open>
  C8. When the enumeration of a directory's children fails, \<open>_build_tree\<close> returns the
  output unchanged: no line is emitted for anything inside it and no counter moves. In the
  loop of its parent the directory contributes its own line only, and the entries after it
  are visited from there. \<open>generate_tree\<close> on an existing root always returns its lines,
  never an exception. Unless the file limit is negative, the result is the one for the
  same directory with an empty listing.
\<close>

theorem unreadable_directory_is_skipped:
  assumes "iterdir directory = None"
  shows "build_tree self out directory prefix depth show_size show_hidden sort_dirs_first
           include_categories exclude_patterns = out
       \<and> visit self prefix depth show_size show_hidden sort_dirs_first include_categories
           exclude_patterns n tr (i, directory) out =
         out_append out (entry_out self directory (current_prefix self prefix n tr i) show_size)
       \<and> fold (visit self prefix depth show_size show_hidden sort_dirs_first
                 include_categories exclude_patterns n tr) (before @ (i, directory) # after) out =
         fold (visit self prefix depth show_size show_hidden sort_dirs_first
                 include_categories exclude_patterns n tr) after
           (out_append
              (fold (visit self prefix depth show_size show_hidden sort_dirs_first
                 include_categories exclude_patterns n tr) before out)
              (entry_out self directory (current_prefix self prefix n tr i) show_size))
       \<and> (\<exists>lines out'. generate_tree self out0 (Some r) rglob_total show_size show_hidden
             sort_dirs_first include_categories exclude_patterns = (Inr lines, out'))
       \<and> ((\<forall>k. max_files_per_folder self = Some k \<longrightarrow> 0 \<le> k) \<longrightarrow>
            build_tree self out (Dir nm None) prefix depth show_size show_hidden sort_dirs_first
              include_categories exclude_patterns =
            build_tree self out (Dir nm (Some [])) prefix depth show_size show_hidden
              sort_dirs_first include_categories exclude_patterns)"
proof -
  have bt: "\<And>s p d. build_tree self s directory p d show_size show_hidden sort_dirs_first
           include_categories exclude_patterns = s"
    by (rule build_tree_unreadable [OF assms])
  have v: "\<And>s. visit self prefix depth show_size show_hidden sort_dirs_first include_categories
           exclude_patterns n tr (i, directory) s =
         out_append s (entry_out self directory (current_prefix self prefix n tr i) show_size)"
    by (simp add: visit_eq bt)
  have g: "\<exists>lines out'. generate_tree self out0 (Some r) rglob_total show_size show_hidden
             sort_dirs_first include_categories exclude_patterns = (Inr lines, out')"
    by (simp add: generate_tree_Some Let_def)
  have e: "(\<forall>k. max_files_per_folder self = Some k \<longrightarrow> 0 \<le> k) \<longrightarrow>
            build_tree self out (Dir nm None) prefix depth show_size show_hidden sort_dirs_first
              include_categories exclude_patterns =
            build_tree self out (Dir nm (Some [])) prefix depth show_size show_hidden
              sort_dirs_first include_categories exclude_patterns"
    by (simp add: build_tree_unreadable build_tree_empty_listing)
  show ?thesis
    using bt v g e by (simp only: fold_append fold_simps comp_apply)
qed

text \<open>
  The root holds a file and a directory that cannot be listed: the directory's line is
  emitted and the file after it is listed too.
\<close>

theorem unreadable_directory_is_skipped_witness:
  "iterdir (Dir ''u'' None) = None
   \<and> max_files_per_folder (ascii_generator 3 None) = None
   \<and> build_tree (ascii_generator 3 None) empty_out (Dir ''u'' None) ''| '' 1 False False True
       None None = empty_out
   \<and> build_tree (ascii_generator 3 None) empty_out (Dir ''u'' (Some [])) ''| '' 1 False False True
       None None = empty_out
   \<and> generate_tree (ascii_generator 3 None) empty_out (Some locked) None False False True
       None None =
     (Inr [[CHR 0xF0, CHR 0x9F, CHR 0x93, CHR 0x82, CHR '' '', CHR ''r'', CHR ''/''],
           ''+- + u/'', ''+- - z''],
      \<lparr>tree_lines = [[CHR 0xF0, CHR 0x9F, CHR 0x93, CHR 0x82, CHR '' '', CHR ''r'', CHR ''/''],
           ''+- + u/'', ''+- - z''],
       stats = \<lparr>folders = 2, files = 1, total_size = 1, truncated_folders = 0\<rparr>\<rparr>)"
proof -
  have h: "iterdir (Dir ''u'' None) = None" by simp
  have k: "\<forall>k. max_files_per_folder (ascii_generator 3 None) = Some k \<longrightarrow> 0 \<le> k"
    by (simp add: ascii_generator_def)
  have ev: "generate_tree (ascii_generator 3 None) empty_out (Some locked) None False False True
       None None =
     (Inr [[CHR 0xF0, CHR 0x9F, CHR 0x93, CHR 0x82, CHR '' '', CHR ''r'', CHR ''/''],
           ''+- + u/'', ''+- - z''],
      \<lparr>tree_lines = [[CHR 0xF0, CHR 0x9F, CHR 0x93, CHR 0x82, CHR '' '', CHR ''r'', CHR ''/''],
           ''+- + u/'', ''+- - z''],
       stats = \<lparr>folders = 2, files = 1, total_size = 1, truncated_folders = 0\<rparr>\<rparr>)"
    by code_simp
  note t = unreadable_directory_is_skipped [OF h, of "ascii_generator 3 None" empty_out "''| ''" 1
      False False True None None 0 False 0 "[]" "[]" empty_out locked None "''u''"]
  from t have a: "build_tree (ascii_generator 3 None) empty_out (Dir ''u'' None) ''| '' 1 False
      False True None None = empty_out"
    by (rule conjunct1)
  from t k have b: "build_tree (ascii_generator 3 None) empty_out (Dir ''u'' None) ''| '' 1 False
      False True None None =
      build_tree (ascii_generator 3 None) empty_out (Dir ''u'' (Some [])) ''| '' 1 False
      False True None None"
    by blast
  have m: "max_files_per_folder (ascii_generator 3 None) = None"
    by (simp add: ascii_generator_def)
  show ?thesis
    using h m a b ev by simp
qed

subsection \<open>The display order of one level\<close>

lemma level_parts:
  assumes "level self show_hidden sort_dirs_first include_categories exclude_patterns es =
      (shown, h, tr)"
  shows "\<exists>fs. shown = filter is_dir (sort_entries sort_dirs_first
             (filter_entries show_hidden include_categories exclude_patterns es)) @ fs
         \<and> limit_files (max_files_per_folder self)
             (filter is_file (sort_entries sort_dirs_first
                (filter_entries show_hidden include_categories exclude_patterns es))) =
           (fs, h, tr)"
proof -
  define S where "S = sort_entries sort_dirs_first
      (filter_entries show_hidden include_categories exclude_patterns es)"
  obtain df h' t' where lf: "limit_files (max_files_per_folder self) (filter is_file S) = (df, h', t')"
    by (cases "limit_files (max_files_per_folder self) (filter is_file S)") auto
  from assms have "shown = filter is_dir S @ df" "h = h'" "tr = t'"
    by (simp_all add: level_def S_def [symmetric] lf Let_def)
  then show ?thesis using lf unfolding S_def by blast
qed

lemma is_file_not_dir: "is_file e \<Longrightarrow> \<not> is_dir e"
  by (cases e) simp_all

lemma tree_lines_block_dir:
  "is_dir e \<Longrightarrow>
   tree_lines (entry_block self prefix depth show_size show_hidden sort_dirs_first
      include_categories exclude_patterns n tr (i, e)) =
   entry_line self e (current_prefix self prefix n tr i) show_size #
   tree_lines (subtree self e (next_prefix self prefix n tr i) (depth + 1) show_size
      show_hidden sort_dirs_first include_categories exclude_patterns)"
  by (simp add: entry_block_def entry_out_def)

lemma tree_lines_block_file:
  "\<not> is_dir e \<Longrightarrow>
   tree_lines (entry_block self prefix depth show_size show_hidden sort_dirs_first
      include_categories exclude_patterns n tr (i, e)) =
   [entry_line self e (current_prefix self prefix n tr i) show_size]"
  by (simp add: entry_block_def entry_out_def)

lemma enumerate_append: "enumerate k (xs @ ys) = enumerate k xs @ enumerate (k + length xs) ys"
  by (induction xs arbitrary: k) simp_all

lemma in_set_enumerate_snd: "x \<in> set (enumerate k xs) \<Longrightarrow> snd x \<in> set xs"
  by (induction xs arbitrary: k) auto

text \<open>
  C3. For a directory that \<open>_build_tree\<close> lists, and for either value of
  \<open>sort_dirs_first\<close>, the entries shown are directories followed by files, and the lines
  come in that order: for each directory its line and then the lines of its subtree, after
  all of these one line for each file shown, then the truncation line if there is one. So
  every line of a subdirectory of the level precedes every line of a file of the level.
\<close>

theorem directories_precede_files:
  assumes "\<not> max_depth self \<le> depth"
    and "iterdir directory = Some es"
  shows "\<exists>ds fs hidden_count tr.
      level self show_hidden sort_dirs_first include_categories exclude_patterns es =
        (ds @ fs, hidden_count, tr)
    \<and> (\<forall>d \<in> set ds. is_dir d)
    \<and> (\<forall>f \<in> set fs. is_file f)
    \<and> tree_lines (build_tree self out directory prefix depth show_size show_hidden
         sort_dirs_first include_categories exclude_patterns) =
       tree_lines out
       @ concat (map (\<lambda>(i, d).
             entry_line self d (current_prefix self prefix (length (ds @ fs)) tr i) show_size #
             tree_lines (subtree self d (next_prefix self prefix (length (ds @ fs)) tr i)
               (depth + 1) show_size show_hidden sort_dirs_first include_categories
               exclude_patterns))
           (enumerate 0 ds))
       @ map (\<lambda>(i, f).
             entry_line self f (current_prefix self prefix (length (ds @ fs)) tr i) show_size)
           (enumerate (length ds) fs)
       @ (if tr then [truncation_line self prefix (length (ds @ fs)) hidden_count] else [])"
proof -
  define S where "S = sort_entries sort_dirs_first
      (filter_entries show_hidden include_categories exclude_patterns es)"
  define ds where "ds = filter is_dir S"
  obtain shown h tr where lv:
    "level self show_hidden sort_dirs_first include_categories exclude_patterns es =
     (shown, h, tr)"
    by (cases "level self show_hidden sort_dirs_first include_categories exclude_patterns es")
  from level_parts [OF lv] obtain fs where shown: "shown = ds @ fs"
    and lf: "limit_files (max_files_per_folder self) (filter is_file S) = (fs, h, tr)"
    unfolding S_def ds_def by blast
  have dirs: "\<forall>d \<in> set ds. is_dir d" by (simp add: ds_def)
  have fls: "\<forall>f \<in> set fs. is_file f"
    using limit_files_subset [OF lf] by auto
  let ?n = "length (ds @ fs)"
  let ?g = "entry_block self prefix depth show_size show_hidden sort_dirs_first
      include_categories exclude_patterns ?n tr"
  have d_part: "map (\<lambda>x. tree_lines (?g x)) (enumerate 0 ds) =
      map (\<lambda>(i, d).
             entry_line self d (current_prefix self prefix ?n tr i) show_size #
             tree_lines (subtree self d (next_prefix self prefix ?n tr i)
               (depth + 1) show_size show_hidden sort_dirs_first include_categories
               exclude_patterns))
           (enumerate 0 ds)"
    using dirs by (intro map_cong refl) (auto dest: in_set_enumerate_snd simp: tree_lines_block_dir)
  have f_part: "map (\<lambda>x. tree_lines (?g x)) (enumerate (length ds) fs) =
      map (\<lambda>x. [(\<lambda>(i, f). entry_line self f (current_prefix self prefix ?n tr i) show_size) x])
        (enumerate (length ds) fs)"
    using fls
    by (intro map_cong refl)
       (auto dest!: in_set_enumerate_snd is_file_not_dir simp: tree_lines_block_file)
  have "tree_lines (build_tree self out directory prefix depth show_size show_hidden
         sort_dirs_first include_categories exclude_patterns) =
       tree_lines out
       @ concat (map (\<lambda>x. tree_lines (?g x)) (enumerate 0 (ds @ fs)))
       @ (if tr then [truncation_line self prefix ?n h] else [])"
    using build_tree_lines [OF assms lv] unfolding shown .
  also have "concat (map (\<lambda>x. tree_lines (?g x)) (enumerate 0 (ds @ fs))) =
      concat (map (\<lambda>x. tree_lines (?g x)) (enumerate 0 ds))
      @ concat (map (\<lambda>x. tree_lines (?g x)) (enumerate (length ds) fs))"
    by (simp add: enumerate_append)
  finally have "tree_lines (build_tree self out directory prefix depth show_size show_hidden
         sort_dirs_first include_categories exclude_patterns) =
       tree_lines out
       @ concat (map (\<lambda>(i, d).
             entry_line self d (current_prefix self prefix ?n tr i) show_size #
             tree_lines (subtree self d (next_prefix self prefix ?n tr i)
               (depth + 1) show_size show_hidden sort_dirs_first include_categories
               exclude_patterns))
           (enumerate 0 ds))
       @ map (\<lambda>(i, f). entry_line self f (current_prefix self prefix ?n tr i) show_size)
           (enumerate (length ds) fs)
       @ (if tr then [truncation_line self prefix ?n h] else [])"
    unfolding d_part f_part concat_map_singleton by simp
  with lv shown dirs fls show ?thesis by blast
qed

text \<open>
  Without \<open>sort_dirs_first\<close> the file \<open>a\<close> sorts before the directory \<open>d\<close>, and the
  directory is displayed first all the same.
\<close>

theorem directories_precede_files_witness:
  "\<not> max_depth (ascii_generator 3 None) \<le> 0
   \<and> iterdir nested = Some [File ''a'' 2, Dir ''d'' (Some [File ''deep'' 1])]
   \<and> sort_entries False [File ''a'' 2, Dir ''d'' (Some [File ''deep'' 1])] =
       [File ''a'' 2, Dir ''d'' (Some [File ''deep'' 1])]
   \<and> level (ascii_generator 3 None) False False None None
         [File ''a'' 2, Dir ''d'' (Some [File ''deep'' 1])] =
       ([Dir ''d'' (Some [File ''deep'' 1])] @ [File ''a'' 2], 0, False)
   \<and> tree_lines (build_tree (ascii_generator 3 None) empty_out nested [] 0 False False False
         None None) =
       [''+- + d/'', ''| +- - deep'', ''+- - a'']"
proof -
  have h1: "\<not> max_depth (ascii_generator 3 None) \<le> 0"
    by (simp add: ascii_generator_def)
  have h2: "iterdir nested = Some [File ''a'' 2, Dir ''d'' (Some [File ''deep'' 1])]"
    by (simp add: nested_def)
  have ev1: "sort_entries False [File ''a'' 2, Dir ''d'' (Some [File ''deep'' 1])] =
       [File ''a'' 2, Dir ''d'' (Some [File ''deep'' 1])]"
    by code_simp
  have ev2: "level (ascii_generator 3 None) False False None None
         [File ''a'' 2, Dir ''d'' (Some [File ''deep'' 1])] =
       ([Dir ''d'' (Some [File ''deep'' 1])] @ [File ''a'' 2], 0, False)"
    by code_simp
  have ev3: "tree_lines (build_tree (ascii_generator 3 None) empty_out nested [] 0 False False
         False None None) =
       [''+- + d/'', ''| +- - deep'', ''+- - a'']"
    by code_simp
  show ?thesis
    using directories_precede_files [OF h1 h2, of False False None None empty_out "[]" False]
      h1 h2 ev1 ev2 ev3
    by blast
qed

subsection \<open>Truncation of a file list\<close>

lemma map_enumerate_snd: "map (\<lambda>(i, e). f e) (enumerate k xs) = map f xs"
  by (induction xs arbitrary: k) simp_all

lemma truncated_concat_out_sum:
  "truncated_folders (stats (concat_out os)) =
   sum_list (map (\<lambda>x. truncated_folders (stats x)) os)"
  by (induction os) (simp_all add: add_stats_def reset_stats_def)

lemma limit_files_truncates:
  assumes "0 < n" and "n < int (length fl)"
  shows "limit_files (Some n) fl = (take (nat n) fl, int (length fl) - n, True)"
  using assms by (simp add: slice_to_def)

text \<open>
  C2, as stated, for a limit of zero. The directory holds two visible files and
  \<open>max_files_per_folder\<close> is 0, which is below 2; the claim asks for no file line, one
  truncation line announcing 2 more files and one truncated folder. The code lists both
  files, emits no truncation line and leaves \<open>truncated_folders\<close> at 0.
\<close>

theorem truncation_law_counterexample:
  "max_files_per_folder (simple_generator 3 (Some 0)) = Some 0
   \<and> filter is_file (sort_entries True
         (filter_entries False None None [File ''b'' 2, File ''a'' 1])) =
       [File ''a'' 1, File ''b'' 2]
   \<and> (0::int) < int (length [File ''a'' 1, File ''b'' 2])
   \<and> build_tree (simple_generator 3 (Some 0)) empty_out
         (Dir ''r'' (Some [File ''b'' 2, File ''a'' 1])) [] 0 False False True None None =
       \<lparr>tree_lines = [junction simple_style @ ''- a'', corner simple_style @ ''- b''],
        stats = \<lparr>folders = 0, files = 2, total_size = 3, truncated_folders = 0\<rparr>\<rparr>"
  by code_simp

text \<open>
  C2, amended. For a directory that \<open>_build_tree\<close> lists, with \<open>K\<close> visible files and a
  limit \<open>n\<close> with \<open>0 < n < K\<close>: after the blocks of the subdirectories come exactly \<open>n\<close>
  file lines, those of the first \<open>n\<close> files in sort order, then one truncation line that
  states \<open>K - n\<close>; and \<open>truncated_folders\<close> grows by 1 for this directory, on top of what
  its subdirectories add.
\<close>

theorem truncation_law:
  assumes "\<not> max_depth self \<le> depth"
    and "iterdir directory = Some es"
    and "sorted_entries = sort_entries sort_dirs_first
           (filter_entries show_hidden include_categories exclude_patterns es)"
    and "directories = filter is_dir sorted_entries"
    and "file_list = filter is_file sorted_entries"
    and "max_files_per_folder self = Some n"
    and "0 < n"
    and "n < int (length file_list)"
  shows "tree_lines (build_tree self out directory prefix depth show_size show_hidden
           sort_dirs_first include_categories exclude_patterns) =
         tree_lines out
         @ concat (map (\<lambda>d.
               entry_line self d (prefix @ junction (style self)) show_size #
               tree_lines (subtree self d (prefix @ vertical (style self)) (depth + 1) show_size
                 show_hidden sort_dirs_first include_categories exclude_patterns))
             directories)
         @ map (\<lambda>f. entry_line self f (prefix @ junction (style self)) show_size)
             (take (nat n) file_list)
         @ [prefix @ corner (style self) @ ''... ('' @ str_int (int (length file_list) - n)
              @ '' more files)'']
       \<and> length (take (nat n) file_list) = nat n
       \<and> truncated_folders (stats (build_tree self out directory prefix depth show_size
           show_hidden sort_dirs_first include_categories exclude_patterns)) =
         truncated_folders (stats out) + 1
         + sum_list (map (\<lambda>d. truncated_folders (stats
               (subtree self d (prefix @ vertical (style self)) (depth + 1) show_size
                  show_hidden sort_dirs_first include_categories exclude_patterns)))
             directories)"
proof -
  let ?shown = "directories @ take (nat n) file_list"
  let ?h = "int (length file_list) - n"
  have lv: "level self show_hidden sort_dirs_first include_categories exclude_patterns es =
      (?shown, ?h, True)"
  proof -
    have lf: "limit_files (max_files_per_folder self) file_list =
        (take (nat n) file_list, int (length file_list) - n, True)"
      unfolding assms(6) by (rule limit_files_truncates [OF assms(7,8)])
    show ?thesis
      unfolding level_def Let_def assms(3) [symmetric] assms(4) [symmetric]
        assms(5) [symmetric] lf
      by simp
  qed
  have len: "length (take (nat n) file_list) = nat n"
    using assms(7,8) by simp
  have nonempty: "0 < length ?shown"
    using assms(7) len by simp
  define b where "b = (\<lambda>e. out_append (entry_out self e (prefix @ junction (style self)) show_size)
      (if is_dir e
       then subtree self e (prefix @ vertical (style self)) (depth + 1) show_size show_hidden
              sort_dirs_first include_categories exclude_patterns
       else empty_out))"
  have blocks: "map (entry_block self prefix depth show_size show_hidden sort_dirs_first
        include_categories exclude_patterns (length ?shown) True) (enumerate 0 ?shown) =
      map b ?shown"
  proof -
    have "entry_block self prefix depth show_size show_hidden sort_dirs_first
        include_categories exclude_patterns (length ?shown) True = (\<lambda>(i, e). b e)"
      by (rule ext)
         (simp add: entry_block_def current_prefix_def next_prefix_def b_def split: prod.splits)
    then show ?thesis by (simp only: map_enumerate_snd)
  qed
  have dirs: "\<forall>d \<in> set directories. is_dir d" by (simp add: assms(4))
  have fls: "\<forall>f \<in> set (take (nat n) file_list). \<not> is_dir f"
    using is_file_not_dir by (auto simp: assms(5) dest!: in_set_takeD)
  have bt: "build_tree self out directory prefix depth show_size show_hidden sort_dirs_first
      include_categories exclude_patterns =
      out_append out (add_truncation_line self prefix (length ?shown) ?h True
        (out_append (count_truncated True empty_out) (concat_out (map b ?shown))))"
    using build_tree_layout [OF assms(1,2) lv] by (simp only: blocks)
  have l_dirs: "map (\<lambda>x. tree_lines (b x)) directories =
      map (\<lambda>d. entry_line self d (prefix @ junction (style self)) show_size #
               tree_lines (subtree self d (prefix @ vertical (style self)) (depth + 1) show_size
                 show_hidden sort_dirs_first include_categories exclude_patterns)) directories"
    using dirs by (intro map_cong refl) (simp add: entry_out_def b_def)
  have l_files: "map (\<lambda>x. tree_lines (b x)) (take (nat n) file_list) =
      map (\<lambda>f. [entry_line self f (prefix @ junction (style self)) show_size])
        (take (nat n) file_list)"
    using fls by (intro map_cong refl) (simp add: entry_out_def b_def)
  have l0: "tree_lines (build_tree self out directory prefix depth show_size show_hidden
           sort_dirs_first include_categories exclude_patterns) =
         tree_lines out
         @ concat (map (\<lambda>x. tree_lines (b x)) directories)
         @ concat (map (\<lambda>x. tree_lines (b x)) (take (nat n) file_list))
         @ [truncation_line self prefix (length ?shown) ?h]"
    by (simp add: bt tree_lines_add_truncation_line tree_lines_concat_out comp_def)
  have tl: "truncation_line self prefix (length ?shown) ?h =
      prefix @ corner (style self) @ ''... ('' @ str_int (int (length file_list) - n)
              @ '' more files)''"
    using nonempty by (simp add: truncation_line_def)
  have lines: "tree_lines (build_tree self out directory prefix depth show_size show_hidden
           sort_dirs_first include_categories exclude_patterns) =
         tree_lines out
         @ concat (map (\<lambda>d.
               entry_line self d (prefix @ junction (style self)) show_size #
               tree_lines (subtree self d (prefix @ vertical (style self)) (depth + 1) show_size
                 show_hidden sort_dirs_first include_categories exclude_patterns))
             directories)
         @ map (\<lambda>f. entry_line self f (prefix @ junction (style self)) show_size)
             (take (nat n) file_list)
         @ [prefix @ corner (style self) @ ''... ('' @ str_int (int (length file_list) - n)
              @ '' more files)'']"
    unfolding l0 l_dirs l_files concat_map_singleton tl by (rule refl)
  have t_dirs: "map (\<lambda>x. truncated_folders (stats (b x))) directories =
      map (\<lambda>d. truncated_folders (stats
               (subtree self d (prefix @ vertical (style self)) (depth + 1) show_size
                  show_hidden sort_dirs_first include_categories exclude_patterns))) directories"
    using dirs
    by (intro map_cong refl)
       (simp add: entry_out_def add_stats_def count_entry_def reset_stats_def b_def)
  have t_files: "map (\<lambda>x. truncated_folders (stats (b x))) (take (nat n) file_list) =
      map (\<lambda>f. 0) (take (nat n) file_list)"
    using fls
    by (intro map_cong refl)
       (simp add: entry_out_def add_stats_def count_entry_def reset_stats_def b_def)
  have t0: "truncated_folders (stats (build_tree self out directory prefix depth show_size
           show_hidden sort_dirs_first include_categories exclude_patterns)) =
         truncated_folders (stats out) + 1
         + (sum_list (map (\<lambda>x. truncated_folders (stats (b x))) directories)
            + sum_list (map (\<lambda>x. truncated_folders (stats (b x))) (take (nat n) file_list)))"
    by (simp add: bt add_truncation_line_def count_truncated_def add_stats_def
        truncated_concat_out_sum comp_def reset_stats_def empty_out_def)
  have trunc: "truncated_folders (stats (build_tree self out directory prefix depth show_size
           show_hidden sort_dirs_first include_categories exclude_patterns)) =
         truncated_folders (stats out) + 1
         + sum_list (map (\<lambda>d. truncated_folders (stats
               (subtree self d (prefix @ vertical (style self)) (depth + 1) show_size
                  show_hidden sort_dirs_first include_categories exclude_patterns)))
             directories)"
    unfolding t0 t_dirs t_files by simp
  from lines len trunc show ?thesis by blast
qed

text \<open>A directory with two files and the limit 1: one file line and the truncation line.\<close>

theorem truncation_law_witness:
  "\<not> max_depth (simple_generator 3 (Some 1)) \<le> 0
   \<and> iterdir two_files = Some [File ''b'' 2, File ''a'' 1]
   \<and> [File ''a'' 1, File ''b'' 2] =
       sort_entries True (filter_entries False None None [File ''b'' 2, File ''a'' 1])
   \<and> [] = filter is_dir [File ''a'' 1, File ''b'' 2]
   \<and> [File ''a'' 1, File ''b'' 2] = filter is_file [File ''a'' 1, File ''b'' 2]
   \<and> max_files_per_folder (simple_generator 3 (Some 1)) = Some 1
   \<and> (0::int) < 1
   \<and> 1 < int (length [File ''a'' 1, File ''b'' 2])
   \<and> tree_lines (build_tree (simple_generator 3 (Some 1)) empty_out two_files [] 0 False False
         True None None) =
       [junction simple_style @ ''- a'', corner simple_style @ ''... (1 more files)'']
   \<and> truncated_folders (stats (build_tree (simple_generator 3 (Some 1)) empty_out two_files []
         0 False False True None None)) = 1"
proof -
  have h1: "\<not> max_depth (simple_generator 3 (Some 1)) \<le> 0"
    by (simp add: simple_generator_def)
  have h2: "iterdir two_files = Some [File ''b'' 2, File ''a'' 1]"
    by (simp add: two_files_def)
  have h3: "[File ''a'' 1, File ''b'' 2] =
       sort_entries True (filter_entries False None None [File ''b'' 2, File ''a'' 1])"
    by code_simp
  have h4: "[] = filter is_dir [File ''a'' 1, File ''b'' 2]" by simp
  have h5: "[File ''a'' 1, File ''b'' 2] = filter is_file [File ''a'' 1, File ''b'' 2]" by simp
  have h6: "max_files_per_folder (simple_generator 3 (Some 1)) = Some 1"
    by (simp add: simple_generator_def)
  have h7: "(0::int) < 1" by simp
  have h8: "1 < int (length [File ''a'' 1, File ''b'' 2])" by simp
  have rhs: "tree_lines empty_out
         @ concat (map (\<lambda>d.
               entry_line (simple_generator 3 (Some 1)) d
                 ([] @ junction (style (simple_generator 3 (Some 1)))) False #
               tree_lines (subtree (simple_generator 3 (Some 1)) d
                 ([] @ vertical (style (simple_generator 3 (Some 1)))) (0 + 1) False
                 False True None None))
             [])
         @ map (\<lambda>f. entry_line (simple_generator 3 (Some 1)) f
                 ([] @ junction (style (simple_generator 3 (Some 1)))) False)
             (take (nat 1) [File ''a'' 1, File ''b'' 2])
         @ [[] @ corner (style (simple_generator 3 (Some 1))) @ ''... (''
              @ str_int (int (length [File ''a'' 1, File ''b'' 2]) - 1) @ '' more files)''] =
       [junction simple_style @ ''- a'', corner simple_style @ ''... (1 more files)'']"
    by code_simp
  have rhs2: "truncated_folders (stats empty_out) + 1
         + sum_list (map (\<lambda>d. truncated_folders (stats
               (subtree (simple_generator 3 (Some 1)) d
                  ([] @ vertical (style (simple_generator 3 (Some 1)))) (0 + 1) False
                  False True None None)))
             []) = 1"
    by (simp add: empty_out_def reset_stats_def)
  note t = truncation_law [OF h1 h2 h3 h4 h5 h6 h7 h8, of empty_out "[]" False]
  have "tree_lines (build_tree (simple_generator 3 (Some 1)) empty_out two_files [] 0 False False
         True None None) =
       [junction simple_style @ ''- a'', corner simple_style @ ''... (1 more files)'']"
    using t [THEN conjunct1] unfolding rhs .
  moreover have "truncated_folders (stats (build_tree (simple_generator 3 (Some 1)) empty_out
      two_files [] 0 False False True None None)) = 1"
    using t [THEN conjunct2, THEN conjunct2] unfolding rhs2 .
  ultimately show ?thesis
    using h1 h2 h3 h4 h5 h6 h7 h8 by blast
qed

subsection \<open>The scenario of the specification\<close>

lemma filter_entries_none:
  assumes "\<forall>e \<in> set es. \<not> startswith (name e) ''.''"
  shows "filter_entries show_hidden None None es = es"
  using assms by (simp add: filter_entries_def should_include_file_def)

lemma sort_src:
  "sort_entries True [File ''c.py'' sc, File ''a.py'' sa, File ''b.py'' sb] =
   [File ''a.py'' sa, File ''b.py'' sb, File ''c.py'' sc]"
  by (simp add: sort_entries_def lower_def lower_char_def)

lemma sort_root:
  "sort_entries True [File ''notes.md'' sn, scenario_src sa sb sc] =
   [scenario_src sa sb sc, File ''notes.md'' sn]"
  by (simp add: sort_entries_def lower_def lower_char_def scenario_src_def)

lemma level_src:
  "level (scenario_generator st ic) show_hidden True None None
     [File ''c.py'' sc, File ''a.py'' sa, File ''b.py'' sb] =
   ([File ''a.py'' sa, File ''b.py'' sb], 1, True)"
proof -
  have "filter_entries show_hidden None None
      [File ''c.py'' sc, File ''a.py'' sa, File ''b.py'' sb] =
      [File ''c.py'' sc, File ''a.py'' sa, File ''b.py'' sb]"
    by (rule filter_entries_none) (simp add: startswith_def)
  then show ?thesis
    by (simp add: level_def sort_src scenario_generator_def slice_to_def)
qed

lemma level_root:
  "level (scenario_generator st ic) show_hidden True None None
     [File ''notes.md'' sn, scenario_src sa sb sc] =
   ([scenario_src sa sb sc, File ''notes.md'' sn], 0, False)"
proof -
  have "filter_entries show_hidden None None [File ''notes.md'' sn, scenario_src sa sb sc] =
      [File ''notes.md'' sn, scenario_src sa sb sc]"
    by (rule filter_entries_none) (simp add: startswith_def scenario_src_def)
  moreover have "is_dir (scenario_src sa sb sc)" "\<not> is_file (scenario_src sa sb sc)"
    by (simp_all add: scenario_src_def)
  ultimately show ?thesis
    by (simp add: level_def sort_root scenario_generator_def)
qed

lemma scenario_src_subtree:
  "subtree (scenario_generator st ic) (scenario_src sa sb sc) (vertical st) 1 show_size
     show_hidden True None None =
   \<lparr>tree_lines =
      [entry_line (scenario_generator st ic) (File ''a.py'' sa) (vertical st @ junction st)
         show_size,
       entry_line (scenario_generator st ic) (File ''b.py'' sb) (vertical st @ junction st)
         show_size,
       vertical st @ corner st @ ''... (1 more files)''],
    stats = \<lparr>folders = 0, files = 2, total_size = sa + sb, truncated_folders = 1\<rparr>\<rparr>"
proof -
  have lt: "\<not> max_depth (scenario_generator st ic) \<le> 1"
    by (simp add: scenario_generator_def)
  have it: "iterdir (scenario_src sa sb sc) =
      Some [File ''c.py'' sc, File ''a.py'' sa, File ''b.py'' sb]"
    by (simp add: scenario_src_def)
  have one: "str_int 1 = ''1''"
    by (simp add: str_int_def str_nat.simps digit_char_def)
  show ?thesis
    unfolding subtree_def build_tree_layout [OF lt it level_src]
    by (simp add: entry_block_def entry_out_def current_prefix_def next_prefix_def
        add_truncation_line_def count_truncated_def truncation_line_def out_append_def
        add_stats_def empty_out_def reset_stats_def count_entry_def scenario_generator_def one)
qed

lemma scenario_subtree:
  "subtree (scenario_generator st ic) (scenario root_name sa sb sc sn) [] 0 show_size
     show_hidden True None None =
   \<lparr>tree_lines =
      [entry_line (scenario_generator st ic) (scenario_src sa sb sc) (junction st) show_size,
       entry_line (scenario_generator st ic) (File ''a.py'' sa) (vertical st @ junction st)
         show_size,
       entry_line (scenario_generator st ic) (File ''b.py'' sb) (vertical st @ junction st)
         show_size,
       vertical st @ corner st @ ''... (1 more files)'',
       entry_line (scenario_generator st ic) (File ''notes.md'' sn) (corner st) show_size],
    stats = \<lparr>folders = 1, files = 3, total_size = sa + sb + sn, truncated_folders = 1\<rparr>\<rparr>"
proof -
  have lt: "\<not> max_depth (scenario_generator st ic) \<le> 0"
    by (simp add: scenario_generator_def)
  have it: "iterdir (scenario root_name sa sb sc sn) =
      Some [File ''notes.md'' sn, scenario_src sa sb sc]"
    by (simp add: scenario_def)
  have d: "is_dir (scenario_src sa sb sc)" by (simp add: scenario_src_def)
  have st: "style (scenario_generator st ic) = st" by (simp add: scenario_generator_def)
  show ?thesis
    unfolding subtree_def build_tree_layout [OF lt it level_root]
    by (simp add: entry_block_def entry_out_def current_prefix_def next_prefix_def d st
        scenario_src_subtree out_append_def add_stats_def empty_out_def reset_stats_def
        count_entry_def)
qed

text \<open>
  C1, as stated, at the sizes 1, 2, 4 and 8 for \<open>a.py\<close>, \<open>b.py\<close>, \<open>c.py\<close> and
  \<open>notes.md\<close>. The folder \<open>src\<close> holds three files, and the claim has all three counted
  in spite of the truncation. The run over \<open>src\<close> counts two files; the total of 3 is made
  of \<open>a.py\<close>, \<open>b.py\<close> and \<open>notes.md\<close>, as the total size \<open>1 + 2 + 8\<close> shows, and the
  hidden \<open>c.py\<close> is not counted.
\<close>

theorem scenario_statistics_counterexample:
  "length (filter is_file [File ''c.py'' 4, File ''a.py'' 1, File ''b.py'' 2]) = 3
   \<and> files (stats (subtree (scenario_generator simple_style SIMPLE) (scenario_src 1 2 4)
        (vertical simple_style) 1 False False True None None)) = 2
   \<and> stats (snd (generate_tree (scenario_generator simple_style SIMPLE) empty_out
        (Some (scenario ''project'' 1 2 4 8)) None False False True None None)) =
     \<lparr>folders = 2, files = 3, total_size = 1 + 2 + 8, truncated_folders = 1\<rparr>"
  by (simp add: generate_tree_Some Let_def scenario_subtree scenario_src_subtree out_append_def
      add_stats_def)

text \<open>
  C1, amended. In the scenario the statistics are \<open>folders = 2\<close>, \<open>files = 3\<close> and
  \<open>truncated_folders = 1\<close>; the lines are the root, \<open>src/\<close> at a junction, \<open>a.py\<close> and
  \<open>b.py\<close> under it, the truncation line for one more file, and \<open>notes.md\<close> at the corner.
  The three files counted are the two displayed files of \<open>src\<close> and \<open>notes.md\<close>: the
  run over \<open>src\<close> counts two files, and the size of \<open>c.py\<close> does not enter the total.
\<close>

theorem scenario_statistics:
  "snd (generate_tree (scenario_generator st ic) out0 (Some (scenario root_name sa sb sc sn))
        rglob_total show_size show_hidden True None None) =
   \<lparr>tree_lines =
      [root_line (scenario_generator st ic) (scenario root_name sa sb sc sn) rglob_total
         show_size,
       entry_line (scenario_generator st ic) (scenario_src sa sb sc) (junction st) show_size,
       entry_line (scenario_generator st ic) (File ''a.py'' sa) (vertical st @ junction st)
         show_size,
       entry_line (scenario_generator st ic) (File ''b.py'' sb) (vertical st @ junction st)
         show_size,
       vertical st @ corner st @ ''... (1 more files)'',
       entry_line (scenario_generator st ic) (File ''notes.md'' sn) (corner st) show_size],
    stats = \<lparr>folders = 2, files = 3, total_size = sa + sb + sn, truncated_folders = 1\<rparr>\<rparr>
   \<and> stats (subtree (scenario_generator st ic) (scenario_src sa sb sc) (vertical st) 1 show_size
        show_hidden True None None) =
     \<lparr>folders = 0, files = 2, total_size = sa + sb, truncated_folders = 1\<rparr>"
  by (simp add: generate_tree_Some Let_def scenario_subtree scenario_src_subtree out_append_def
      add_stats_def)

subsection \<open>Size formatting\<close>

lemma bit_length_le: "bit_length n \<le> k \<longleftrightarrow> n < 2 ^ k"
proof (induction n arbitrary: k rule: bit_length.induct)
  case (1 n)
  show ?case
  proof (cases "n = 0")
    case True
    then show ?thesis by (simp add: bit_length.simps)
  next
    case False
    show ?thesis
    proof (cases k)
      case 0
      with False show ?thesis by (simp add: bit_length.simps)
    next
      case (Suc j)
      have "bit_length n \<le> Suc j \<longleftrightarrow> bit_length (n div 2) \<le> j"
        using False by (subst bit_length.simps) simp
      also have "\<dots> \<longleftrightarrow> n div 2 < 2 ^ j" using 1 False by simp
      also have "\<dots> \<longleftrightarrow> n < 2 ^ Suc j" by auto
      finally show ?thesis using Suc by simp
    qed
  qed
qed

lemma float_of_nat_small: "n < 2 ^ 53 \<Longrightarrow> float_of_nat n = of_nat n"
  by (simp add: float_of_nat_def bit_length_le)

lemma float_of_nat_large:
  assumes "\<not> n < 2 ^ 53"
  shows "2 ^ 53 \<le> float_of_nat n"
proof -
  define e where "e = bit_length n - 53"
  define q where "q = n div 2 ^ e"
  have bl: "53 < bit_length n" using assms bit_length_le [of n 53] by simp
  then have "\<not> bit_length n \<le> e + 52" by (simp add: e_def)
  then have "2 ^ (e + 52) \<le> n" using bit_length_le [of n "e + 52"] by simp
  then have "2 ^ 52 * 2 ^ e \<le> n" by (simp add: power_add mult.commute)
  then have "2 ^ 52 \<le> q"
    unfolding q_def by (simp add: less_eq_div_iff_mult_less_eq)
  have "0 < e" using bl by (simp add: e_def)
  then have "(2::nat) \<le> 2 ^ e" using self_le_power [of 2 e] by simp
  with \<open>2 ^ 52 \<le> q\<close> have "2 ^ 52 * 2 \<le> q * 2 ^ e" by (rule mult_le_mono)
  then have low: "(2::nat) ^ 53 \<le> q * 2 ^ e" by simp
  have "q * 2 ^ e \<le> (if n mod 2 ^ e < 2 ^ (e - 1) \<or> (n mod 2 ^ e = 2 ^ (e - 1) \<and> even q)
                       then q else q + 1) * 2 ^ e"
    by simp
  with low have "(2::nat) ^ 53 \<le> (if n mod 2 ^ e < 2 ^ (e - 1) \<or>
      (n mod 2 ^ e = 2 ^ (e - 1) \<and> even q) then q else q + 1) * 2 ^ e"
    by (rule order_trans)
  then have "(of_nat ((2::nat) ^ 53) :: rat) \<le> of_nat ((if n mod 2 ^ e < 2 ^ (e - 1) \<or>
      (n mod 2 ^ e = 2 ^ (e - 1) \<and> even q) then q else q + 1) * 2 ^ e)"
    by (simp only: of_nat_le_iff)
  moreover have "float_of_nat n = of_nat ((if n mod 2 ^ e < 2 ^ (e - 1) \<or>
      (n mod 2 ^ e = 2 ^ (e - 1) \<and> even q) then q else q + 1) * 2 ^ e)"
    using bl by (simp add: float_of_nat_def Let_def e_def q_def)
  ultimately show ?thesis by simp
qed

lemma ge_1024_iff: "ge_1024 v \<longleftrightarrow> 1024 \<le> as_float v"
proof (cases v)
  case (PyInt n)
  show ?thesis
  proof (cases "n < 2 ^ 53")
    case True
    have "(1024 \<le> n) = ((of_nat 1024 :: rat) \<le> of_nat n)" by (simp only: of_nat_le_iff)
    then show ?thesis using True by (simp add: PyInt float_of_nat_small)
  next
    case False
    then have "1024 \<le> n" by simp
    moreover have "(1024::rat) \<le> float_of_nat n"
      using float_of_nat_large [OF False] by simp
    ultimately show ?thesis by (simp add: PyInt)
  qed
next
  case (PyFloat x)
  then show ?thesis by simp
qed

lemma format_size_loop_unfold:
  "format_size_loop v i =
     (if ge_1024 v \<and> i < 4 then format_size_loop (div_1024 v) (i + 1) else (v, i))"
proof -
  have "length size_names - 1 = 4" by (simp add: size_names_def)
  then show ?thesis by (subst format_size_loop.simps) (simp only:)
qed

lemma format_size_loop_step:
  "ge_1024 v \<Longrightarrow> i < 4 \<Longrightarrow>
   format_size_loop v i = format_size_loop (div_1024 v) (i + 1)"
  by (subst format_size_loop_unfold) simp

lemma format_size_loop_stop:
  "\<not> (ge_1024 v \<and> i < 4) \<Longrightarrow> format_size_loop v i = (v, i)"
  by (subst format_size_loop_unfold) auto

lemma format_size_loop_spec:
  assumes "format_size_loop v i = (v', i')" and "i \<le> 4"
  shows "i \<le> i' \<and> i' \<le> 4
       \<and> as_float v' = as_float v / 1024 ^ (i' - i)
       \<and> (i' < 4 \<longrightarrow> as_float v' < 1024)
       \<and> (\<forall>j. i \<le> j \<and> j < i' \<longrightarrow> 1024 \<le> as_float v / 1024 ^ (j - i))"
  using assms
proof (induction v i arbitrary: v' i' rule: format_size_loop.induct)
  case (1 v i)
  show ?case
  proof (cases "ge_1024 v \<and> i < 4")
    case False
    then have "format_size_loop v i = (v, i)"
      by (rule format_size_loop_stop)
    with "1.prems"(1) have "v' = v" "i' = i" by simp_all
    then show ?thesis using False "1.prems"(2) by (auto simp: ge_1024_iff)
  next
    case True
    then have c: "ge_1024 v \<and> i < length size_names - 1" by (simp add: size_names_def)
    have "format_size_loop v i = format_size_loop (div_1024 v) (i + 1)"
      using True by (intro format_size_loop_step) simp_all
    with "1.prems"(1) have rec: "format_size_loop (div_1024 v) (i + 1) = (v', i')" by simp
    have le: "i + 1 \<le> 4" using True by simp
    note IH = "1.IH" [OF c rec le]
    have d: "as_float (div_1024 v) = as_float v / 1024" by (simp add: div_1024_def)
    from IH have i': "i + 1 \<le> i'" "i' \<le> 4" by simp_all
    have p: "as_float v / 1024 / 1024 ^ (k - (i + 1)) = as_float v / 1024 ^ (k - i)"
      if "i + 1 \<le> k" for k
    proof -
      have "k - i = Suc (k - (i + 1))" using that by simp
      then show ?thesis by simp
    qed
    from IH have "as_float v' = as_float (div_1024 v) / 1024 ^ (i' - (i + 1))" by blast
    then have v': "as_float v' = as_float v / 1024 ^ (i' - i)"
      by (simp only: d p [OF i'(1)])
    have low: "1024 \<le> as_float v / 1024 ^ (j - i)" if "i \<le> j" "j < i'" for j
    proof (cases "j = i")
      case True
      then show ?thesis using \<open>ge_1024 v \<and> i < 4\<close> by (simp add: ge_1024_iff)
    next
      case False
      then have j: "i + 1 \<le> j" using that by simp
      with IH that have "1024 \<le> as_float (div_1024 v) / 1024 ^ (j - (i + 1))" by blast
      then show ?thesis by (simp only: d p [OF j])
    qed
    from IH i' v' low show ?thesis by auto
  qed
qed

lemma mod_10_digit: "str_nat (t mod 10) = [digit_char (t mod 10)]"
  by (simp add: str_nat.simps)

lemmas format_size_eval =
  format_size_def format_size_loop_unfold size_names_def div_1024_def float_of_nat_small
  format_1f_def round_half_even_def str_nat.simps digit_char_def

lemma format_size_1536: "format_size 1536 = ''1.5 KB''"
  by (simp add: format_size_eval)

lemma format_size_GB: "format_size 1073741824 = ''1.0 GB''"
  by (simp add: format_size_eval)

lemma format_size_1024_TB: "format_size (2 ^ 50) = ''1024.0 TB''"
  by (simp add: format_size_eval)

lemma format_size_MB: "format_size 1048576 = ''1.0 MB''"
  by (simp add: format_size_eval)

text \<open>
  C7, as stated. At \<open>2 ^ 50\<close> bytes, which is 1024 TB, the loop stops at the last unit and
  the result is \<open>1024.0 TB\<close>: the scaled value is not below 1024, and no unit has a scaled
  value below 1024. Read to the letter, the largest unit with a scaled value below 1024 is
  TB already at 1536 bytes, where the result is \<open>1.5 KB\<close>: the loop takes the first unit,
  going up from B, at which the value drops below 1024.
\<close>

theorem format_size_counterexample:
  "format_size (2 ^ 50) = ''1024.0 TB''
   \<and> \<not> (of_nat (2 ^ 50) :: rat) / 1024 ^ 4 < 1024
   \<and> spec_largest_unit (2 ^ 50) = None
   \<and> format_size 1536 = ''1.5 KB''
   \<and> spec_largest_unit 1536 = Some 4
   \<and> size_names ! 4 = ''TB''"
proof (intro conjI)
  show "format_size (2 ^ 50) = ''1024.0 TB''" by (rule format_size_1024_TB)
  show "\<not> (of_nat (2 ^ 50) :: rat) / 1024 ^ 4 < 1024" by simp
  show "spec_largest_unit (2 ^ 50) = None"
    by (simp add: spec_largest_unit_def size_names_def
        upt_rec [of 0] upt_rec [of 1] upt_rec [of 2] upt_rec [of 3] upt_rec [of 4]
        upt_rec [of 5])
  show "format_size 1536 = ''1.5 KB''" by (rule format_size_1536)
  show "spec_largest_unit 1536 = Some 4"
    by (simp add: spec_largest_unit_def size_names_def
        upt_rec [of 0] upt_rec [of 1] upt_rec [of 2] upt_rec [of 3] upt_rec [of 4]
        upt_rec [of 5])
  show "size_names ! 4 = ''TB''" by (simp add: size_names_def)
qed

text \<open>
  C7, amended. For a positive byte count \<open>format_size\<close> takes the smallest unit among B, KB,
  MB, GB, TB at which the scaled value is below 1024, and TB when there is none: the value
  is below 1024 unless the unit is TB, and at least 1024 at every smaller unit. The scaled
  value, the count as a float divided by \<open>1024 ^ i\<close>, is rendered with one digit after the
  point, rounded half to even, then a space and the unit. Counts below \<open>2 ^ 53\<close> are floats
  exactly. Zero gives \<open>0 B\<close>, 1536 gives \<open>1.5 KB\<close> and 1073741824 gives \<open>1.0 GB\<close>.
\<close>

theorem format_size_unit:
  "(0 < n \<longrightarrow>
      (\<exists>i \<le> 4.
         format_size n =
           str_nat (round_half_even (10 * (float_of_nat n / 1024 ^ i)) div 10) @ ''.''
           @ [digit_char (round_half_even (10 * (float_of_nat n / 1024 ^ i)) mod 10)]
           @ '' '' @ size_names ! i
       \<and> (i < 4 \<longrightarrow> float_of_nat n / 1024 ^ i < 1024)
       \<and> (\<forall>j < i. 1024 \<le> float_of_nat n / 1024 ^ j)))
   \<and> (n < 2 ^ 53 \<longrightarrow> float_of_nat n = of_nat n)
   \<and> format_size 0 = ''0 B''
   \<and> format_size 1536 = ''1.5 KB''
   \<and> format_size 1073741824 = ''1.0 GB''"
proof (intro conjI impI)
  assume pos: "0 < n"
  obtain v' i' where L: "format_size_loop (PyInt n) 0 = (v', i')"
    by (cases "format_size_loop (PyInt n) 0")
  have S: "0 \<le> i' \<and> i' \<le> 4
       \<and> as_float v' = as_float (PyInt n) / 1024 ^ (i' - 0)
       \<and> (i' < 4 \<longrightarrow> as_float v' < 1024)
       \<and> (\<forall>j. 0 \<le> j \<and> j < i' \<longrightarrow> 1024 \<le> as_float (PyInt n) / 1024 ^ (j - 0))"
    by (rule format_size_loop_spec [OF L]) simp
  from S have i': "i' \<le> 4" by blast
  from S have v': "as_float v' = float_of_nat n / 1024 ^ i'" by simp
  from S have below: "i' < 4 \<longrightarrow> as_float v' < 1024" by blast
  from S have above: "\<forall>j. j < i' \<longrightarrow> 1024 \<le> float_of_nat n / 1024 ^ j" by simp
  have "format_size n = format_1f v' @ '' '' @ size_names ! i'"
    using pos by (simp add: format_size_def L)
  also have "format_1f v' =
      str_nat (round_half_even (10 * (float_of_nat n / 1024 ^ i')) div 10) @ ''.''
      @ [digit_char (round_half_even (10 * (float_of_nat n / 1024 ^ i')) mod 10)]"
    by (simp only: format_1f_def Let_def v' mod_10_digit)
  finally have "format_size n =
      str_nat (round_half_even (10 * (float_of_nat n / 1024 ^ i')) div 10) @ ''.''
      @ [digit_char (round_half_even (10 * (float_of_nat n / 1024 ^ i')) mod 10)]
      @ '' '' @ size_names ! i'"
    by simp
  with i' below above v'
  show "\<exists>i \<le> 4.
         format_size n =
           str_nat (round_half_even (10 * (float_of_nat n / 1024 ^ i)) div 10) @ ''.''
           @ [digit_char (round_half_even (10 * (float_of_nat n / 1024 ^ i)) mod 10)]
           @ '' '' @ size_names ! i
       \<and> (i < 4 \<longrightarrow> float_of_nat n / 1024 ^ i < 1024)
       \<and> (\<forall>j < i. 1024 \<le> float_of_nat n / 1024 ^ j)"
    by (intro exI [of _ i']) simp
next
  assume "n < 2 ^ 53"
  then show "float_of_nat n = of_nat n" by (rule float_of_nat_small)
next
  show "format_size 0 = ''0 B''" by (simp add: format_size_def)
  show "format_size 1536 = ''1.5 KB''" by (rule format_size_1536)
  show "format_size 1073741824 = ''1.0 GB''" by (rule format_size_GB)
qed

text \<open>One mebibyte: \<open>1.0 MB\<close>.\<close>

theorem format_size_unit_witness:
  "(0::nat) < 1048576
   \<and> (1048576::nat) < 2 ^ 53
   \<and> float_of_nat 1048576 = 1048576
   \<and> format_size 1048576 = ''1.0 MB''"
proof -
  have a: "(0::nat) < 1048576" by simp
  have b: "(1048576::nat) < 2 ^ 53" by simp
  from format_size_unit [of 1048576] a b have "float_of_nat 1048576 = of_nat 1048576"
    by blast
  then have c: "float_of_nat 1048576 = 1048576" by simp
  show ?thesis using a b c format_size_MB by blast
qed

subsection \<open>Lines and counters\<close>

lemma count_kind_Nil [simp]: "count_kind k [] = 0"
  by (simp add: count_kind_def)

lemma count_kind_Cons [simp]:
  "count_kind k (l # ls) = (if fst l = k then 1 else 0) + count_kind k ls"
  by (simp add: count_kind_def)

lemma count_kind_append [simp]: "count_kind k (xs @ ys) = count_kind k xs + count_kind k ys"
  by (simp add: count_kind_def)

lemma count_kind_concat: "count_kind k (concat xss) = sum_list (map (count_kind k) xss)"
  by (induction xss) simp_all

lemma count_kind_total:
  "length ls = count_kind DirLine ls + count_kind FileLine ls + count_kind TruncLine ls"
proof (induction ls)
  case Nil
  then show ?case by simp
next
  case (Cons l ls)
  then show ?case by (cases "fst l") simp_all
qed

lemma folders_concat_out:
  "folders (stats (concat_out os)) = sum_list (map (\<lambda>x. folders (stats x)) os)"
  by (induction os) (simp_all add: add_stats_def reset_stats_def)

lemma files_concat_out:
  "files (stats (concat_out os)) = sum_list (map (\<lambda>x. files (stats x)) os)"
  by (induction os) (simp_all add: add_stats_def reset_stats_def)

lemma kinded_lines_stop:
  "max_depth self \<le> depth \<Longrightarrow>
   kinded_lines self directory prefix depth show_size show_hidden sort_dirs_first
     include_categories exclude_patterns = []"
  by (subst kinded_lines.simps) simp

lemma kinded_lines_unreadable:
  "iterdir directory = None \<Longrightarrow>
   kinded_lines self directory prefix depth show_size show_hidden sort_dirs_first
     include_categories exclude_patterns = []"
  by (subst kinded_lines.simps) simp

text \<open>The kinded lines of one pass of the loop body.\<close>

lemma kinded_lines_level:
  assumes "\<not> max_depth self \<le> depth"
    and "iterdir directory = Some es"
    and "level self show_hidden sort_dirs_first include_categories exclude_patterns es =
         (shown, hidden_count, tr)"
  shows "kinded_lines self directory prefix depth show_size show_hidden sort_dirs_first
     include_categories exclude_patterns =
     concat (map (\<lambda>(i, e).
         if is_dir e
         then (DirLine, entry_line self e
                 (current_prefix self prefix (length shown) tr i) show_size) #
              kinded_lines self e (next_prefix self prefix (length shown) tr i)
                (depth + 1) show_size show_hidden sort_dirs_first
                include_categories exclude_patterns
         else [(FileLine, entry_line self e
                  (current_prefix self prefix (length shown) tr i) show_size)])
       (enumerate 0 shown))
     @ (if tr then [(TruncLine, truncation_line self prefix (length shown) hidden_count)]
        else [])"
  using assms by (subst kinded_lines.simps) simp

lemma subtree_kinds:
  "tree_lines (subtree self directory prefix depth show_size show_hidden sort_dirs_first
      include_categories exclude_patterns) =
     map snd (kinded_lines self directory prefix depth show_size show_hidden sort_dirs_first
      include_categories exclude_patterns)
   \<and> folders (stats (subtree self directory prefix depth show_size show_hidden sort_dirs_first
      include_categories exclude_patterns)) =
     count_kind DirLine (kinded_lines self directory prefix depth show_size show_hidden
      sort_dirs_first include_categories exclude_patterns)
   \<and> files (stats (subtree self directory prefix depth show_size show_hidden sort_dirs_first
      include_categories exclude_patterns)) =
     count_kind FileLine (kinded_lines self directory prefix depth show_size show_hidden
      sort_dirs_first include_categories exclude_patterns)
   \<and> truncated_folders (stats (subtree self directory prefix depth show_size show_hidden
      sort_dirs_first include_categories exclude_patterns)) =
     count_kind TruncLine (kinded_lines self directory prefix depth show_size show_hidden
      sort_dirs_first include_categories exclude_patterns)"
proof (induction "nat (max_depth self - depth)" arbitrary: directory prefix depth)
  case 0
  then have "max_depth self \<le> depth" by simp
  then show ?case
    by (simp add: subtree_def build_tree_stop kinded_lines_stop reset_stats_def)
next
  case (Suc k)
  then have lt: "\<not> max_depth self \<le> depth" and k: "k = nat (max_depth self - (depth + 1))"
    by auto
  note IH = Suc.hyps(1) [OF k]
  show ?case
  proof (cases "iterdir directory")
    case None
    then show ?thesis
      by (simp add: subtree_def build_tree_unreadable kinded_lines_unreadable reset_stats_def)
  next
    case (Some es)
    obtain shown h tr where lv:
      "level self show_hidden sort_dirs_first include_categories exclude_patterns es =
       (shown, h, tr)"
      by (cases "level self show_hidden sort_dirs_first include_categories exclude_patterns es")
    define g where "g = entry_block self prefix depth show_size show_hidden sort_dirs_first
        include_categories exclude_patterns (length shown) tr"
    define kl where "kl = (\<lambda>(i, e).
         if is_dir e
         then (DirLine, entry_line self e
                 (current_prefix self prefix (length shown) tr i) show_size) #
              kinded_lines self e (next_prefix self prefix (length shown) tr i)
                (depth + 1) show_size show_hidden sort_dirs_first
                include_categories exclude_patterns
         else [(FileLine, entry_line self e
                  (current_prefix self prefix (length shown) tr i) show_size)])"
    have b_lines: "tree_lines (g x) = map snd (kl x)" for x
      by (cases x) (simp add: g_def kl_def entry_block_def entry_out_def IH)
    have b_folders: "folders (stats (g x)) = count_kind DirLine (kl x)" for x
      by (cases x)
         (simp add: g_def kl_def entry_block_def entry_out_def count_entry_def add_stats_def
            reset_stats_def IH)
    have b_files: "files (stats (g x)) = count_kind FileLine (kl x)" for x
      by (cases x)
         (simp add: g_def kl_def entry_block_def entry_out_def count_entry_def add_stats_def
            reset_stats_def IH)
    have b_trunc: "truncated_folders (stats (g x)) = count_kind TruncLine (kl x)" for x
      by (cases x)
         (simp add: g_def kl_def entry_block_def entry_out_def count_entry_def add_stats_def
            reset_stats_def IH)
    have sub: "subtree self directory prefix depth show_size show_hidden sort_dirs_first
        include_categories exclude_patterns =
        add_truncation_line self prefix (length shown) h tr
          (out_append (count_truncated tr empty_out) (concat_out (map g (enumerate 0 shown))))"
      unfolding subtree_def g_def build_tree_layout [OF lt Some lv] by simp
    have kin: "kinded_lines self directory prefix depth show_size show_hidden sort_dirs_first
        include_categories exclude_patterns =
        concat (map kl (enumerate 0 shown))
        @ (if tr then [(TruncLine, truncation_line self prefix (length shown) h)] else [])"
      unfolding kl_def by (rule kinded_lines_level [OF lt Some lv])
    have 1: "tree_lines (subtree self directory prefix depth show_size show_hidden
        sort_dirs_first include_categories exclude_patterns) =
        map snd (kinded_lines self directory prefix depth show_size show_hidden sort_dirs_first
          include_categories exclude_patterns)"
      unfolding sub kin
      by (simp add: tree_lines_add_truncation_line tree_lines_concat_out map_concat comp_def
          b_lines)
    have 2: "folders (stats (subtree self directory prefix depth show_size show_hidden
        sort_dirs_first include_categories exclude_patterns)) =
        count_kind DirLine (kinded_lines self directory prefix depth show_size show_hidden
          sort_dirs_first include_categories exclude_patterns)"
      unfolding sub kin
      by (simp add: add_truncation_line_def count_truncated_def add_stats_def reset_stats_def
          empty_out_def folders_concat_out count_kind_concat comp_def b_folders)
    have 3: "files (stats (subtree self directory prefix depth show_size show_hidden
        sort_dirs_first include_categories exclude_patterns)) =
        count_kind FileLine (kinded_lines self directory prefix depth show_size show_hidden
          sort_dirs_first include_categories exclude_patterns)"
      unfolding sub kin
      by (simp add: add_truncation_line_def count_truncated_def add_stats_def reset_stats_def
          empty_out_def files_concat_out count_kind_concat comp_def b_files)
    have 4: "truncated_folders (stats (subtree self directory prefix depth show_size
        show_hidden sort_dirs_first include_categories exclude_patterns)) =
        count_kind TruncLine (kinded_lines self directory prefix depth show_size show_hidden
          sort_dirs_first include_categories exclude_patterns)"
      unfolding sub kin
      by (simp add: add_truncation_line_def count_truncated_def add_stats_def reset_stats_def
          empty_out_def truncated_concat_out_sum count_kind_concat comp_def b_trunc)
    from 1 2 3 4 show ?thesis by blast
  qed
qed

text \<open>
  C9. After a successful call of \<open>generate_tree\<close> the lines returned are, in order, the
  lines of the run with their kinds: the root line and the line of every entry that is a
  directory are directory lines, the line of every other entry is a file line, and the
  line that announces hidden files is a truncation line. \<open>stats['folders']\<close> is the number
  of directory lines, \<open>stats['files']\<close> the number of file lines and
  \<open>stats['truncated_folders']\<close> the number of truncation lines: each kind of line
  increments its own counter and no other. So the number of lines is
  \<open>stats['folders'] + stats['files'] + stats['truncated_folders']\<close>.
\<close>

theorem lines_match_counters:
  assumes "generate_tree self out0 root_path rglob_total show_size show_hidden sort_dirs_first
      include_categories exclude_patterns = (Inr lines, out)"
  shows "\<exists>r. root_path = Some r
      \<and> lines = map snd (kinded_run self r rglob_total show_size show_hidden sort_dirs_first
            include_categories exclude_patterns)
      \<and> tree_lines out = lines
      \<and> folders (stats out) =
          count_kind DirLine (kinded_run self r rglob_total show_size show_hidden
            sort_dirs_first include_categories exclude_patterns)
      \<and> files (stats out) =
          count_kind FileLine (kinded_run self r rglob_total show_size show_hidden
            sort_dirs_first include_categories exclude_patterns)
      \<and> truncated_folders (stats out) =
          count_kind TruncLine (kinded_run self r rglob_total show_size show_hidden
            sort_dirs_first include_categories exclude_patterns)
      \<and> length lines =
          folders (stats out) + files (stats out) + truncated_folders (stats out)"
proof -
  obtain r where r: "root_path = Some r"
    using assms by (cases root_path) (simp_all add: generate_tree_def)
  define s where "s = subtree self r [] 0 show_size show_hidden sort_dirs_first
      include_categories exclude_patterns"
  define K where "K = kinded_lines self r [] 0 show_size show_hidden sort_dirs_first
      include_categories exclude_patterns"
  define R where "R = kinded_run self r rglob_total show_size show_hidden sort_dirs_first
      include_categories exclude_patterns"
  have R: "R = (DirLine, root_line self r rglob_total show_size) # K"
    by (simp add: R_def K_def kinded_run_def)
  have sk: "tree_lines s = map snd K" "folders (stats s) = count_kind DirLine K"
    "files (stats s) = count_kind FileLine K"
    "truncated_folders (stats s) = count_kind TruncLine K"
    unfolding s_def K_def using subtree_kinds by blast+
  have out: "out = out_append
        \<lparr>tree_lines = [root_line self r rglob_total show_size],
         stats = \<lparr>folders = 1, files = 0, total_size = 0, truncated_folders = 0\<rparr>\<rparr> s"
    and lines: "lines = tree_lines out"
    using assms unfolding r generate_tree_Some s_def by (auto simp: Let_def)
  have l: "lines = map snd R" by (simp add: lines out sk R)
  have f: "folders (stats out) = count_kind DirLine R"
    by (simp add: out add_stats_def sk R)
  have g: "files (stats out) = count_kind FileLine R"
    by (simp add: out add_stats_def sk R)
  have t: "truncated_folders (stats out) = count_kind TruncLine R"
    by (simp add: out add_stats_def sk R)
  have "length lines = length R" by (simp add: l)
  also have "\<dots> = count_kind DirLine R + count_kind FileLine R + count_kind TruncLine R"
    by (rule count_kind_total)
  finally have n: "length lines =
      folders (stats out) + files (stats out) + truncated_folders (stats out)"
    by (simp add: f g t)
  from r l lines f g t n show ?thesis unfolding R_def by auto
qed

text \<open>
  The root holds two files and a directory with one file, and the limit is one file per
  folder: two directory lines, two file lines and one truncation line; two folders, two
  files and one truncated folder.
\<close>

theorem lines_match_counters_witness:
  "generate_tree (ascii_generator 3 (Some 1)) empty_out (Some mixed) None False False True
     None None =
     (Inr [emoji_open_folder @ '' r/'', ''+- + d/'', ''| +- - x'', ''+- - a'',
           ''+- ... (1 more files)''],
      \<lparr>tree_lines = [emoji_open_folder @ '' r/'', ''+- + d/'', ''| +- - x'', ''+- - a'',
           ''+- ... (1 more files)''],
       stats = \<lparr>folders = 2, files = 2, total_size = 7, truncated_folders = 1\<rparr>\<rparr>)
   \<and> kinded_run (ascii_generator 3 (Some 1)) mixed None False False True None None =
     [(DirLine, emoji_open_folder @ '' r/''), (DirLine, ''+- + d/''),
      (FileLine, ''| +- - x''), (FileLine, ''+- - a''),
      (TruncLine, ''+- ... (1 more files)'')]
   \<and> count_kind DirLine
        (kinded_run (ascii_generator 3 (Some 1)) mixed None False False True None None) = 2
   \<and> count_kind FileLine
        (kinded_run (ascii_generator 3 (Some 1)) mixed None False False True None None) = 2
   \<and> count_kind TruncLine
        (kinded_run (ascii_generator 3 (Some 1)) mixed None False False True None None) = 1"
proof -
  have ev: "generate_tree (ascii_generator 3 (Some 1)) empty_out (Some mixed) None False False
      True None None =
     (Inr [emoji_open_folder @ '' r/'', ''+- + d/'', ''| +- - x'', ''+- - a'',
           ''+- ... (1 more files)''],
      \<lparr>tree_lines = [emoji_open_folder @ '' r/'', ''+- + d/'', ''| +- - x'', ''+- - a'',
           ''+- ... (1 more files)''],
       stats = \<lparr>folders = 2, files = 2, total_size = 7, truncated_folders = 1\<rparr>\<rparr>)"
    by code_simp
  have kr: "kinded_run (ascii_generator 3 (Some 1)) mixed None False False True None None =
     [(DirLine, emoji_open_folder @ '' r/''), (DirLine, ''+- + d/''),
      (FileLine, ''| +- - x''), (FileLine, ''+- - a''),
      (TruncLine, ''+- ... (1 more files)'')]"
    by code_simp
  from lines_match_counters [OF ev]
  have c: "2 = count_kind DirLine
        (kinded_run (ascii_generator 3 (Some 1)) mixed None False False True None None)"
      "2 = count_kind FileLine
        (kinded_run (ascii_generator 3 (Some 1)) mixed None False False True None None)"
      "1 = count_kind TruncLine
        (kinded_run (ascii_generator 3 (Some 1)) mixed None False False True None None)"
    by simp_all
  show ?thesis
    using ev kr c by (intro conjI) (rule ev kr c [symmetric])+
qed

end
